theory Spec2Isabelle
  imports Complex_Main "HOL-Library.Word"
begin

chapter \<open>The processors\<close>

section \<open>Numbers rendered as text\<close>

text \<open>
  The processors build their messages with template literals. Page numbers and positions
  are integral JavaScript numbers; their decimal rendering is modelled here.
\<close>

definition digit_char :: "nat \<Rightarrow> char" where
  "digit_char d = ''0123456789'' ! d"

function string_of_nat :: "nat \<Rightarrow> string" where
  "string_of_nat n =
     (if n < 10 then [digit_char n]
      else string_of_nat (n div 10) @ [digit_char (n mod 10)])"
  by pat_completeness auto
termination
  by (relation "measure id") auto

declare string_of_nat.simps [simp del]

definition string_of_int :: "int \<Rightarrow> string" where
  "string_of_int i =
     (if i < 0 then CHR ''-'' # string_of_nat (nat (- i)) else string_of_nat (nat i))"

section \<open>Split processor: page ranges\<close>

text \<open>
  The \<open>PageRange\<close> objects \<open>{start, end}\<close> of the split options; the two fields are
  named \<open>range_start\<close> and \<open>range_end\<close> here.
\<close>

record PageRange =
  range_start :: int
  range_end :: int

text \<open>
  The body of the loop of \<open>validatePageRanges\<close>: the four checks on the range at
  0-based position \<open>i\<close>, in the order of the source; \<open>None\<close> when the loop goes on.
\<close>

definition checkRange :: "nat \<Rightarrow> PageRange \<Rightarrow> int \<Rightarrow> string option" where
  "checkRange i rng totalPages =
     (if range_start rng < 1 then
        Some (''Range '' @ string_of_nat (i + 1) @ '': Start page must be at least 1.'')
      else if range_end rng < range_start rng then
        Some (''Range '' @ string_of_nat (i + 1) @ '': End page ('' @ string_of_int (range_end rng)
              @ '') cannot be less than start page ('' @ string_of_int (range_start rng) @ '').'')
      else if range_end rng > totalPages then
        Some (''Range '' @ string_of_nat (i + 1) @ '': End page ('' @ string_of_int (range_end rng)
              @ '') exceeds total pages ('' @ string_of_int totalPages @ '').'')
      else if range_start rng > totalPages then
        Some (''Range '' @ string_of_nat (i + 1) @ '': Start page ('' @ string_of_int (range_start rng)
              @ '') exceeds total pages ('' @ string_of_int totalPages @ '').'')
      else None)"

text \<open>The loop itself, from position \<open>i\<close> on; the first message returned ends it.\<close>

fun validate_from :: "nat \<Rightarrow> PageRange list \<Rightarrow> int \<Rightarrow> string option" where
  "validate_from i [] totalPages = None"
| "validate_from i (rng # rest) totalPages =
     (case checkRange i rng totalPages of
        Some msg \<Rightarrow> Some msg
      | None \<Rightarrow> validate_from (i + 1) rest totalPages)"

definition validatePageRanges :: "PageRange list \<Rightarrow> int \<Rightarrow> string option" where
  "validatePageRanges ranges totalPages = validate_from 0 ranges totalPages"

text \<open>The three bounds of the specification for one range.\<close>

definition range_in_bounds :: "PageRange \<Rightarrow> int \<Rightarrow> bool" where
  "range_in_bounds rng totalPages \<longleftrightarrow>
     1 \<le> range_start rng \<and> range_start rng \<le> range_end rng \<and> range_end rng \<le> totalPages"

section \<open>Image to PDF: page layout\<close>

text \<open>
  JavaScript numbers are modelled as real numbers: the layout code only adds, subtracts,
  multiplies, divides and compares, and the properties below are about positive image
  sizes, where no division by zero occurs.
\<close>

datatype PageSizeType = A4 | LETTER | LEGAL | A3 | A5 | FIT

text \<open>The table \<open>PAGE_SIZES\<close>, in points, as (width, height).\<close>

fun PAGE_SIZES :: "PageSizeType \<Rightarrow> real \<times> real" where
  "PAGE_SIZES A4 = (595.28, 841.89)"
| "PAGE_SIZES LETTER = (612, 792)"
| "PAGE_SIZES LEGAL = (612, 1008)"
| "PAGE_SIZES A3 = (841.89, 1190.55)"
| "PAGE_SIZES A5 = (419.53, 595.28)"
| "PAGE_SIZES FIT = (0, 0)"

text \<open>\<open>pageSize\<close> is a preset name (a string) or an object \<open>{width, height}\<close>.\<close>

datatype PageSizeOption = Preset PageSizeType | Custom real real

datatype Orientation = Portrait | Landscape | Auto

record ImageToPDFOptions =
  pageSize :: PageSizeOption
  orientation :: Orientation
  margin :: real
  quality :: real
  centerImage :: bool
  scaleToFit :: bool
  svgScale :: real

text \<open>\<open>typeof options.pageSize === 'string'\<close>\<close>

fun is_preset :: "PageSizeOption \<Rightarrow> bool" where
  "is_preset (Preset p) = True"
| "is_preset (Custom w h) = False"

text \<open>The base page size, the first half of \<open>calculatePageDimensions\<close>.\<close>

fun basePageSize :: "real \<Rightarrow> real \<Rightarrow> ImageToPDFOptions \<Rightarrow> real \<times> real" where
  "basePageSize imageWidth imageHeight options =
     (case pageSize options of
        Preset p \<Rightarrow>
          (if p = FIT then (imageWidth + (margin options * 2), imageHeight + (margin options * 2))
           else PAGE_SIZES p)
      | Custom w h \<Rightarrow> (w, h))"

text \<open>\<open>calculatePageDimensions\<close>: the base size, then the orientation step.\<close>

definition calculatePageDimensions :: "real \<Rightarrow> real \<Rightarrow> ImageToPDFOptions \<Rightarrow> real \<times> real" where
  "calculatePageDimensions imageWidth imageHeight options =
     (let (pageWidth, pageHeight) = basePageSize imageWidth imageHeight options
      in case orientation options of
           Landscape \<Rightarrow>
             (if pageWidth < pageHeight then (pageHeight, pageWidth) else (pageWidth, pageHeight))
         | Portrait \<Rightarrow>
             (if pageWidth > pageHeight then (pageHeight, pageWidth) else (pageWidth, pageHeight))
         | Auto \<Rightarrow>
             (let imageIsLandscape = (imageWidth > imageHeight);
                  pageIsLandscape = (pageWidth > pageHeight)
              in if imageIsLandscape \<noteq> pageIsLandscape \<and> is_preset (pageSize options)
                    \<and> pageSize options \<noteq> Preset FIT
                 then (pageHeight, pageWidth) else (pageWidth, pageHeight)))"

record ImagePlacement =
  place_x :: real
  place_y :: real
  place_width :: real
  place_height :: real

text \<open>\<open>calculateImagePlacement\<close>\<close>

definition calculateImagePlacement ::
  "real \<Rightarrow> real \<Rightarrow> real \<Rightarrow> real \<Rightarrow> ImageToPDFOptions \<Rightarrow> ImagePlacement" where
  "calculateImagePlacement imageWidth imageHeight pageWidth pageHeight options =
     (let availableWidth = pageWidth - (margin options * 2);
          availableHeight = pageHeight - (margin options * 2);
          (width, height) =
            (if scaleToFit options then
               (let scaleX = availableWidth / imageWidth;
                    scaleY = availableHeight / imageHeight;
                    scale = min (min scaleX scaleY) 1
                in (imageWidth * scale, imageHeight * scale))
             else (imageWidth, imageHeight));
          (x, y) =
            (if centerImage options then ((pageWidth - width) / 2, (pageHeight - height) / 2)
             else (margin options, margin options))
      in \<lparr>place_x = x, place_y = y, place_width = width, place_height = height\<rparr>)"

section \<open>Text colour: recolouring a pixel buffer\<close>

text \<open>
  \<open>ImageData.data\<close> is a \<open>Uint8ClampedArray\<close>: bytes, four per pixel (R, G, B, A).
\<close>

type_synonym byte = "8 word"

text \<open>
  Storing a number into a \<open>Uint8ClampedArray\<close> clamps it to 0..255 and rounds it to the
  nearest integer, ties to even.
\<close>

definition toUint8Clamp :: "real \<Rightarrow> byte" where
  "toUint8Clamp v =
     (if v \<le> 0 then 0
      else if v \<ge> 255 then 255
      else (let f = \<lfloor>v\<rfloor>
            in if real_of_int f + 1 / 2 < v then word_of_int (f + 1)
               else if v < real_of_int f + 1 / 2 then word_of_int f
               else if even f then word_of_int f else word_of_int (f + 1)))"

text \<open>The target colour \<open>{r, g, b}\<close>, each channel on the scale 0..1.\<close>

record RGBColor =
  color_r :: real
  color_g :: real
  color_b :: real

text \<open>The test on one pixel: brightness is the plain average of the three channels.\<close>

definition shouldChange :: "bool \<Rightarrow> real \<Rightarrow> byte \<Rightarrow> byte \<Rightarrow> byte \<Rightarrow> bool" where
  "shouldChange isDarkMode threshold pixelR pixelG pixelB =
     (let brightness = (real (unat pixelR) + real (unat pixelG) + real (unat pixelB)) / 3
      in if isDarkMode then brightness < threshold else brightness > threshold)"

text \<open>
  The pass \<open>for (j = 0; j < data.length; j += 4)\<close> over the buffer. A last group of three
  bytes is still read and written as R, G, B; with fewer than three bytes left a channel
  reads as \<open>undefined\<close>, the brightness is \<open>NaN\<close> and nothing is written.
\<close>

fun recolor :: "bool \<Rightarrow> real \<Rightarrow> RGBColor \<Rightarrow> byte list \<Rightarrow> byte list" where
  "recolor isDarkMode threshold color (pixelR # pixelG # pixelB # alpha # rest) =
     (if shouldChange isDarkMode threshold pixelR pixelG pixelB
      then toUint8Clamp (color_r color * 255) # toUint8Clamp (color_g color * 255)
             # toUint8Clamp (color_b color * 255) # alpha # recolor isDarkMode threshold color rest
      else pixelR # pixelG # pixelB # alpha # recolor isDarkMode threshold color rest)"
| "recolor isDarkMode threshold color [pixelR, pixelG, pixelB] =
     (if shouldChange isDarkMode threshold pixelR pixelG pixelB
      then [toUint8Clamp (color_r color * 255), toUint8Clamp (color_g color * 255),
            toUint8Clamp (color_b color * 255)]
      else [pixelR, pixelG, pixelB])"
| "recolor isDarkMode threshold color rest = rest"

section \<open>Split processor: parsing a page-range string\<close>













subsection \<open>The parser as the specification words it\<close>






section \<open>The processor base and its collaborators\<close>

datatype PDFErrorCode =
  INVALID_OPTIONS | FILE_TYPE_INVALID | INVALID_PAGE_RANGE
  | PROCESSING_CANCELLED | PROCESSING_FAILED | PDF_ENCRYPTED

text \<open>
  What a \<open>throw\<close> or a rejected promise of a collaborator carries: an \<open>Error\<close> with its
  message, or any other value.
\<close>

datatype thrown = Error string | NonError

text \<open>\<open>error instanceof Error ? error.message : 'Unknown error'\<close>\<close>

fun error_message :: "thrown \<Rightarrow> string" where
  "error_message (Error message) = message"
| "error_message NonError = ''Unknown error''"

text \<open>
  Modelled from the spec: the outcome of a run, as the processors build it with
  \<open>createSuccessOutput (blob, filename, metadata)\<close> and
  \<open>createErrorOutput (code, message, details)\<close> of \<open>BasePDFProcessor\<close>, which is not
  among the processors' sources: "either a success outcome (one or more output byte blobs
  with filenames and metadata) or a typed failure outcome". The details are optional.
\<close>

datatype ('blob, 'meta) ProcessOutput =
  SuccessOutput 'blob string 'meta
  | ErrorOutput PDFErrorCode string "string option"

record File =
  file_name :: string
  file_type :: string

text \<open>
  Modelled from the spec: the state that \<open>BasePDFProcessor\<close> keeps for one run, "process-local
  to one pipeline run". It is seen through the calls made so far: the percentages passed
  to \<open>updateProgress\<close>, in the order of the calls, and the number of cancellation checks.
\<close>

record run_state =
  progress_log :: "real list"
  cancel_checks :: nat

text \<open>
  Modelled from the spec: \<open>reset\<close> of \<open>BasePDFProcessor\<close>; the progress state is "reset at the
  start of each run".
\<close>

definition reset :: "'a run_state_scheme \<Rightarrow> 'a run_state_scheme" where
  "reset s = s\<lparr>progress_log := [], cancel_checks := 0\<rparr>"

text \<open>
  Modelled from the spec: \<open>updateProgress\<close> of \<open>BasePDFProcessor\<close> takes the percentage and
  hands it to the progress callback "clamped to [0,100]"; \<open>progress_emitted\<close> is what the
  callback has received in the run.
\<close>

definition updateProgress :: "real \<Rightarrow> 'a run_state_scheme \<Rightarrow> 'a run_state_scheme" where
  "updateProgress percent s = s\<lparr>progress_log := progress_log s @ [percent]\<rparr>"

definition progress_emitted :: "'a run_state_scheme \<Rightarrow> real list" where
  "progress_emitted s = map (\<lambda>percent. min 100 (max 0 percent)) (progress_log s)"

text \<open>
  Modelled from the spec: \<open>checkCancelled\<close> of \<open>BasePDFProcessor\<close> reads the "cancellation flag
  set externally and read at well-defined checkpoints"; \<open>cancelled_at k\<close> is what the check
  numbered \<open>k\<close> of the run reads.
\<close>

definition checkCancelled ::
  "(nat \<Rightarrow> bool) \<Rightarrow> 'a run_state_scheme \<Rightarrow> bool \<times> 'a run_state_scheme" where
  "checkCancelled cancelled_at s =
     (cancelled_at (cancel_checks s), s\<lparr>cancel_checks := cancel_checks s + 1\<rparr>)"

text \<open>How a loop that can throw and can return from the function ends.\<close>

datatype ('out, 'acc) loop_end = Threw thrown | Returned 'out | Completed 'acc

subsection \<open>String helpers of the processors\<close>

text \<open>\<open>s.startsWith(t)\<close>, \<open>s.includes(t)\<close> and \<open>s.endsWith(t)\<close>\<close>

fun startsWith :: "string \<Rightarrow> string \<Rightarrow> bool" where
  "startsWith s [] = True"
| "startsWith [] (c # cs) = False"
| "startsWith (x # xs) (c # cs) = (x = c \<and> startsWith xs cs)"

fun string_includes :: "string \<Rightarrow> string \<Rightarrow> bool" where
  "string_includes [] t = (t = [])"
| "string_includes (x # xs) t = (startsWith (x # xs) t \<or> string_includes xs t)"

definition endsWith :: "string \<Rightarrow> string \<Rightarrow> bool" where
  "endsWith s t = startsWith (rev s) (rev t)"

text \<open>\<open>toLowerCase\<close>, on the letters A to Z.\<close>

definition lower_char :: "char \<Rightarrow> char" where
  "lower_char c =
     (case map_of (zip ''ABCDEFGHIJKLMNOPQRSTUVWXYZ'' ''abcdefghijklmnopqrstuvwxyz'') c of
        Some l \<Rightarrow> l
      | None \<Rightarrow> c)"

definition toLowerCase :: "string \<Rightarrow> string" where
  "toLowerCase s = map lower_char s"

text \<open>\<open>array.join(separator)\<close>\<close>

fun join :: "string list \<Rightarrow> string \<Rightarrow> string" where
  "join [] separator = []"
| "join [x] separator = x"
| "join (x # y # rest) separator = x @ separator @ join (y # rest) separator"

text \<open>\<open>s.replace(pattern, replacement)\<close> with a string pattern: the first occurrence only.\<close>

fun replace_first :: "string \<Rightarrow> string \<Rightarrow> string \<Rightarrow> string" where
  "replace_first [] pattern replacement = (if pattern = [] then replacement else [])"
| "replace_first (x # xs) pattern replacement =
     (if startsWith (x # xs) pattern then replacement @ drop (length pattern) (x # xs)
      else x # replace_first xs pattern replacement)"

section \<open>OCR processor\<close>

datatype OCROutputFormat = TextFormat | SearchablePdf

text \<open>
  The options after the defaults have been merged in. Languages are kept by their codes
  (\<open>eng\<close>, \<open>deu\<close>, ...).
\<close>

record OCROptions =
  ocr_languages :: "string list"
  ocr_scale :: real
  ocr_pages :: "int list"
  ocr_outputFormat :: OCROutputFormat
  ocr_preserveLayout :: bool

text \<open>The blob of the result: the text, or the bytes of a saved PDF.\<close>

datatype OCRBlob = TextBlob string | PdfBlob "byte list"

record OCRMetadata =
  ocr_pageCount :: nat
  ocr_meta_languages :: "string list"
  ocr_meta_outputFormat :: OCROutputFormat

type_synonym OCROutput = "(OCRBlob, OCRMetadata) ProcessOutput"

text \<open>
  The collaborators of one OCR run. Each asynchronous call either resolves or rejects:
  loading pdf.js; importing Tesseract and creating the worker; reading the file and
  opening it with pdf.js, which gives the number of pages; rendering and recognising one
  page (\<open>getPage\<close>, the canvas, \<open>render\<close>, \<open>recognize\<close>), which gives its text; loading,
  tagging and saving the original with pdf-lib for the searchable PDF; and \<open>terminate()\<close>
  on the worker, where \<open>terminate_result k\<close> is the result of the call of \<open>terminate()\<close>
  that comes after \<open>k\<close> earlier ones.
\<close>

record OCREnv =
  ocr_cancelled_at :: "nat \<Rightarrow> bool"
  loadPdfjs_result :: "thrown option"
  createWorker_result :: "thrown option"
  getDocument_result :: "thrown + nat"
  recognizePage_result :: "int \<Rightarrow> thrown + string"
  savePdf_result :: "thrown + byte list"
  terminate_result :: "nat \<Rightarrow> thrown option"

text \<open>
  The processor's state: the run state of the base class, the field \<open>tesseractWorker\<close>
  (\<open>None\<close> for \<open>null\<close>; workers are numbered in the order of their creation), the number
  of workers created so far, and the workers on which \<open>terminate()\<close> has been called, in
  the order of the calls, whether the call resolved or not.
\<close>

record OCRState = run_state +
  tesseractWorker :: "nat option"
  workers_created :: nat
  terminated :: "nat list"

definition initializeTesseract :: "OCREnv \<Rightarrow> OCRState \<Rightarrow> thrown option \<times> OCRState" where
  "initializeTesseract env s =
     (case createWorker_result env of
        Some error \<Rightarrow> (Some error, s)
      | None \<Rightarrow>
          (None, s\<lparr>tesseractWorker := Some (workers_created s),
                   workers_created := workers_created s + 1\<rparr>))"

text \<open>
  \<open>terminateTesseract\<close>: with a worker in the field, \<open>terminate()\<close> is called and awaited,
  and the field is set to \<open>null\<close> after it has resolved; if it rejects, the rejection is
  thrown on and the field keeps the worker.
\<close>

definition terminateTesseract :: "OCREnv \<Rightarrow> OCRState \<Rightarrow> thrown option \<times> OCRState" where
  "terminateTesseract env s =
     (case tesseractWorker s of
        None \<Rightarrow> (None, s)
      | Some worker \<Rightarrow>
          (let s1 = s\<lparr>terminated := terminated s @ [worker]\<rparr>
           in case terminate_result env (length (terminated s)) of
                Some error \<Rightarrow> (Some error, s1)
              | None \<Rightarrow> (None, s1\<lparr>tesseractWorker := None\<rparr>)))"

definition ocrPage :: "OCREnv \<Rightarrow> int \<Rightarrow> OCRState \<Rightarrow> thrown + string" where
  "ocrPage env pageNum s =
     (if tesseractWorker s = None then Inl (Error ''Tesseract worker not initialized'')
      else recognizePage_result env pageNum)"

text \<open>One entry of \<open>textResults\<close>: the page header, then the text or the error marker.\<close>

definition pageEntry :: "int \<Rightarrow> thrown + string \<Rightarrow> string" where
  "pageEntry pageNum result =
     (case result of
        Inr pageText \<Rightarrow> ''--- Page '' @ string_of_int pageNum @ '' ---'' @ [CHR 0x0A] @ pageText
      | Inl error \<Rightarrow>
          ''--- Page '' @ string_of_int pageNum @ '' ---'' @ [CHR 0x0A]
            @ ''[OCR Error: '' @ error_message error @ '']'')"

definition cancelledOutput :: "('blob, 'meta) ProcessOutput" where
  "cancelledOutput = ErrorOutput PROCESSING_CANCELLED ''Processing was cancelled.'' None"

text \<open>
  The page loop, at index \<open>i\<close> with the pages still to do. It ends with the output
  returned from inside the loop (cancellation), with the rejection of \<open>terminate()\<close>
  thrown from there, or with \<open>textResults\<close>.
\<close>

fun ocr_loop ::
  "OCREnv \<Rightarrow> real \<Rightarrow> nat \<Rightarrow> int list \<Rightarrow> string list \<Rightarrow> OCRState
     \<Rightarrow> (OCROutput, string list) loop_end \<times> OCRState" where
  "ocr_loop env progressPerPage i [] textResults s = (Completed textResults, s)"
| "ocr_loop env progressPerPage i (pageNum # rest) textResults s =
     (let (cancelled, s1) = checkCancelled (ocr_cancelled_at env) s
      in if cancelled then
           (case terminateTesseract env s1 of
              (Some error, s2) \<Rightarrow> (Threw error, s2)
            | (None, s2) \<Rightarrow> (Returned cancelledOutput, s2))
         else
           (let pageProgress = 25 + (real i * progressPerPage);
                s2 = updateProgress pageProgress s1;
                entry = pageEntry pageNum (ocrPage env pageNum s2)
            in ocr_loop env progressPerPage (i + 1) rest (textResults @ [entry]) s2))"

text \<open>\<open>file.name.replace(/\.pdf$/i, '')\<close>\<close>

definition stripPdfSuffix :: "string \<Rightarrow> string" where
  "stripPdfSuffix name =
     (if endsWith (toLowerCase name) ''.pdf'' then take (length name - 4) name else name)"

text \<open>After the loop: the worker is terminated and the output is generated.\<close>

definition ocr_finish ::
  "OCREnv \<Rightarrow> File \<Rightarrow> OCROptions \<Rightarrow> int list \<Rightarrow> string list \<Rightarrow> OCRState
     \<Rightarrow> (thrown + OCROutput) \<times> OCRState" where
  "ocr_finish env file ocrOptions pagesToOCR textResults s =
     (case terminateTesseract env s of
        (Some error, s1) \<Rightarrow> (Inl error, s1)
      | (None, s1) \<Rightarrow>
          (let s2 = updateProgress 95 s1;
               baseName = stripPdfSuffix (file_name file);
               metadata = \<lparr>ocr_pageCount = length pagesToOCR,
                           ocr_meta_languages = ocr_languages ocrOptions,
                           ocr_meta_outputFormat = ocr_outputFormat ocrOptions\<rparr>
           in if ocr_outputFormat ocrOptions = TextFormat then
                (let fullText = join textResults [CHR 0x0A, CHR 0x0A];
                     s3 = updateProgress 100 s2
                 in (Inr (SuccessOutput (TextBlob fullText) (baseName @ ''_ocr.txt'') metadata),
                     s3))
              else
                (case savePdf_result env of
                   Inl error \<Rightarrow> (Inl error, s2)
                 | Inr pdfBytes \<Rightarrow>
                     (let s3 = updateProgress 100 s2
                      in (Inr (SuccessOutput (PdfBlob pdfBytes) (baseName @ ''_searchable.pdf'')
                                 metadata), s3)))))"

text \<open>
  Which pages to OCR: the listed page numbers that lie in \<open>1..totalPages\<close>, or every
  page when the list is empty.
\<close>

definition selectPagesToOCR :: "OCROptions \<Rightarrow> nat \<Rightarrow> int list" where
  "selectPagesToOCR ocrOptions totalPages =
     (if length (ocr_pages ocrOptions) > 0
      then filter (\<lambda>p. p \<ge> 1 \<and> p \<le> int totalPages) (ocr_pages ocrOptions)
      else map (\<lambda>i. int i + 1) [0..<totalPages])"

text \<open>The body of the \<open>try\<close> block: \<open>Inl\<close> is an exception on its way to the \<open>catch\<close>.\<close>

definition ocr_try ::
  "OCREnv \<Rightarrow> File \<Rightarrow> OCROptions \<Rightarrow> OCRState \<Rightarrow> (thrown + OCROutput) \<times> OCRState" where
  "ocr_try env file ocrOptions s =
     (let s1 = updateProgress 5 s
      in case loadPdfjs_result env of
           Some error \<Rightarrow> (Inl error, s1)
         | None \<Rightarrow>
           (let (cancelled, s2) = checkCancelled (ocr_cancelled_at env) s1
            in if cancelled then (Inr cancelledOutput, s2)
               else
                 (let s3 = updateProgress 10 s2
                  in case initializeTesseract env s3 of
                       (Some error, s4) \<Rightarrow> (Inl error, s4)
                     | (None, s4) \<Rightarrow>
                       (let s5 = updateProgress 20 s4
                        in case getDocument_result env of
                             Inl error \<Rightarrow> (Inl error, s5)
                           | Inr totalPages \<Rightarrow>
                             (let pagesToOCR = selectPagesToOCR ocrOptions totalPages
                              in if length pagesToOCR = 0 then
                                   (case terminateTesseract env s5 of
                                      (Some error, s6) \<Rightarrow> (Inl error, s6)
                                    | (None, s6) \<Rightarrow>
                                        (Inr (ErrorOutput INVALID_PAGE_RANGE
                                                ''No valid pages to OCR.''
                                                (Some (''PDF has '' @ string_of_nat totalPages
                                                         @ '' pages.''))), s6))
                                 else
                                   (let s6 = updateProgress 25 s5;
                                        progressPerPage = 70 / real (length pagesToOCR)
                                    in case ocr_loop env progressPerPage 0 pagesToOCR [] s6 of
                                         (Threw error, s7) \<Rightarrow> (Inl error, s7)
                                       | (Returned output, s7) \<Rightarrow> (Inr output, s7)
                                       | (Completed textResults, s7) \<Rightarrow>
                                           ocr_finish env file ocrOptions pagesToOCR
                                             textResults s7))))))"

text \<open>
  \<open>OCRProcessor.process\<close>: the two validations, then the \<open>try\<close> block and its \<open>catch\<close>.
  The result is \<open>Inr\<close> of the outcome that the function returns, or \<open>Inl\<close> of what it
  throws: the \<open>catch\<close> awaits \<open>terminateTesseract\<close> itself, outside any \<open>try\<close>.
\<close>

definition OCR_process ::
  "OCREnv \<Rightarrow> File list \<Rightarrow> OCROptions \<Rightarrow> OCRState \<Rightarrow> (thrown + OCROutput) \<times> OCRState" where
  "OCR_process env files ocrOptions s =
     (let s0 = reset s
      in case files of
           [file] \<Rightarrow>
             if \<not> string_includes (file_type file) ''pdf''
                \<and> \<not> endsWith (toLowerCase (file_name file)) ''.pdf''
             then (Inr (ErrorOutput FILE_TYPE_INVALID
                          ''Invalid file type. Please upload a PDF file.''
                          (Some (''Received: '' @ (if file_type file = [] then ''unknown''
                                                   else file_type file)))), s0)
             else
               (case ocr_try env file ocrOptions s0 of
                  (Inr output, s') \<Rightarrow> (Inr output, s')
                | (Inl error, s') \<Rightarrow>
                    (case terminateTesseract env s' of
                       (Some error', s'') \<Rightarrow> (Inl error', s'')
                     | (None, s'') \<Rightarrow>
                         (Inr (ErrorOutput PROCESSING_FAILED ''Failed to perform OCR on PDF.''
                                 (Some (error_message error))), s'')))
         | other \<Rightarrow>
             (Inr (ErrorOutput INVALID_OPTIONS ''Please provide exactly one PDF file.''
                     (Some (''Received '' @ string_of_nat (length files) @ '' file(s).''))), s0))"

subsection \<open>Sample runs of the OCR processor\<close>

definition sample_file :: File where
  "sample_file = \<lparr>file_name = ''scan.pdf'', file_type = ''application/pdf''\<rparr>"

definition sample_ocr_options :: "int list \<Rightarrow> OCROutputFormat \<Rightarrow> OCROptions" where
  "sample_ocr_options pages format =
     \<lparr>ocr_languages = [''eng''], ocr_scale = 2, ocr_pages = pages,
      ocr_outputFormat = format, ocr_preserveLayout = False\<rparr>"

text \<open>
  A two-page document whose first page cannot be recognised; the run is cancelled at the
  check numbered \<open>cancel\<close>, if any, and opening the document fails if \<open>broken\<close>. Every
  call of \<open>terminate()\<close> resolves.
\<close>

definition sample_ocr_env :: "nat option \<Rightarrow> bool \<Rightarrow> OCREnv" where
  "sample_ocr_env cancel broken =
     \<lparr>ocr_cancelled_at = (\<lambda>k. cancel = Some k),
      loadPdfjs_result = None,
      createWorker_result = None,
      getDocument_result = (if broken then Inl (Error ''Invalid PDF structure'') else Inr 2),
      recognizePage_result = (\<lambda>p. if p = 1 then Inl (Error ''render failed'') else Inr ''two''),
      savePdf_result = Inr [37, 80, 68, 70],
      terminate_result = (\<lambda>k. None)\<rparr>"

text \<open>The same, with a worker whose calls of \<open>terminate()\<close> numbered in \<open>rejected\<close> reject.\<close>

definition sample_ocr_env_rejecting :: "nat option \<Rightarrow> bool \<Rightarrow> nat list \<Rightarrow> OCREnv" where
  "sample_ocr_env_rejecting cancel broken rejected =
     (sample_ocr_env cancel broken)
       \<lparr>terminate_result :=
          (\<lambda>k. if k \<in> set rejected then Some (Error ''worker crashed'') else None)\<rparr>"

definition fresh_ocr_state :: OCRState where
  "fresh_ocr_state =
     \<lparr>progress_log = [], cancel_checks = 0, tesseractWorker = None, workers_created = 0,
      terminated = []\<rparr>"

section \<open>Split processor\<close>

datatype SplitOutputFormat = SingleOutput | MultipleOutput

record SplitOptions =
  split_ranges :: "PageRange list"
  split_outputFormat :: SplitOutputFormat

text \<open>A saved output document is represented by the 0-based source pages copied into it.\<close>

type_synonym SplitBlob = "int list"

text \<open>
  The result is one blob, with its page count, the range count and the source page count,
  or the array of all blobs, with the range count, the source page count and the file
  names.
\<close>

datatype SplitResult = OneBlob SplitBlob | AllBlobs "SplitBlob list"

datatype SplitMetadata = OneMeta int nat nat | AllMeta nat nat "string list"

type_synonym SplitOutput = "(SplitResult, SplitMetadata) ProcessOutput"

text \<open>
  The collaborators of one split run: loading pdf-lib; reading the file; loading the
  source document, which gives its page count; and, for the range at each position,
  creating the new document, copying the pages and saving it.
\<close>

record SplitEnv =
  split_cancelled_at :: "nat \<Rightarrow> bool"
  loadPdfLib_result :: "thrown option"
  arrayBuffer_result :: "thrown option"
  loadSource_result :: "thrown + nat"
  extract_result :: "nat \<Rightarrow> thrown option"

text \<open>\<open>getFileNameWithoutExtension\<close>: the name up to its last dot, if it has one.\<close>

definition getFileNameWithoutExtension :: "string \<Rightarrow> string" where
  "getFileNameWithoutExtension filename =
     (if CHR ''.'' \<notin> set filename then filename
      else rev (tl (dropWhile (\<lambda>c. c \<noteq> CHR ''.'') (rev filename))))"

definition generateSplitFilename :: "string \<Rightarrow> PageRange \<Rightarrow> nat \<Rightarrow> nat \<Rightarrow> string" where
  "generateSplitFilename originalName rng rangeIndex totalRanges =
     (let baseName = getFileNameWithoutExtension originalName
      in if totalRanges = 1 then
           (if range_start rng = range_end rng
            then baseName @ ''_page_'' @ string_of_int (range_start rng) @ ''.pdf''
            else baseName @ ''_pages_'' @ string_of_int (range_start rng) @ ''-''
                   @ string_of_int (range_end rng) @ ''.pdf'')
         else if range_start rng = range_end rng
         then baseName @ ''_part'' @ string_of_nat rangeIndex @ ''_page_''
                @ string_of_int (range_start rng) @ ''.pdf''
         else baseName @ ''_part'' @ string_of_nat rangeIndex @ ''_pages_''
                @ string_of_int (range_start rng) @ ''-'' @ string_of_int (range_end rng)
                @ ''.pdf'')"

text \<open>
  The loop over the ranges, at index \<open>i\<close> with the ranges still to do; \<open>totalRanges\<close> is
  \<open>splitOptions.ranges.length\<close>.
\<close>

fun split_loop ::
  "SplitEnv \<Rightarrow> string \<Rightarrow> real \<Rightarrow> nat \<Rightarrow> nat \<Rightarrow> PageRange list \<Rightarrow> SplitBlob list \<Rightarrow> string list
     \<Rightarrow> run_state \<Rightarrow> (SplitOutput, SplitBlob list \<times> string list) loop_end \<times> run_state" where
  "split_loop env name progressPerRange totalRanges i [] outputBlobs outputFilenames s =
     (Completed (outputBlobs, outputFilenames), s)"
| "split_loop env name progressPerRange totalRanges i (rng # rest) outputBlobs outputFilenames s =
     (let (cancelled, s1) = checkCancelled (split_cancelled_at env) s
      in if cancelled then (Returned cancelledOutput, s1)
         else
           (let rangeProgress = 15 + (real i * progressPerRange);
                s2 = updateProgress rangeProgress s1;
                pageIndices = map (\<lambda>pageNum. pageNum - 1) [range_start rng..range_end rng]
            in case extract_result env i of
                 Some error \<Rightarrow> (Threw error, s2)
               | None \<Rightarrow>
                   (let filename = generateSplitFilename name rng (i + 1) totalRanges
                    in split_loop env name progressPerRange totalRanges (i + 1) rest
                         (outputBlobs @ [pageIndices]) (outputFilenames @ [filename]) s2)))"

text \<open>After the loop: the outcome for one blob or for all of them.\<close>

definition split_finish ::
  "SplitOptions \<Rightarrow> nat \<Rightarrow> SplitBlob list \<Rightarrow> string list \<Rightarrow> run_state
     \<Rightarrow> SplitOutput \<times> run_state" where
  "split_finish splitOptions totalPages outputBlobs outputFilenames s =
     (let s1 = updateProgress 95 s
      in if split_outputFormat splitOptions = SingleOutput \<and> length outputBlobs = 1
         then
           (let s2 = updateProgress 100 s1;
                first = hd (split_ranges splitOptions)
            in (SuccessOutput (OneBlob (hd outputBlobs)) (hd outputFilenames)
                  (OneMeta (range_end first - range_start first + 1) 1 totalPages), s2))
         else
           (let s2 = updateProgress 100 s1
            in (SuccessOutput (AllBlobs outputBlobs) (join outputFilenames '', '')
                  (AllMeta (length (split_ranges splitOptions)) totalPages outputFilenames), s2)))"

text \<open>
  From the loaded source document on: the ranges are validated, then extracted one by
  one.
\<close>

definition split_extract ::
  "SplitEnv \<Rightarrow> File \<Rightarrow> SplitOptions \<Rightarrow> nat \<Rightarrow> run_state
     \<Rightarrow> (thrown + SplitOutput) \<times> run_state" where
  "split_extract env file splitOptions totalPages s =
     (let s1 = updateProgress 15 s
      in case validatePageRanges (split_ranges splitOptions) (int totalPages) of
           Some validationError \<Rightarrow>
             (Inr (ErrorOutput INVALID_PAGE_RANGE validationError
                     (Some (''The PDF has '' @ string_of_nat totalPages @ '' pages.''))), s1)
         | None \<Rightarrow>
             (let (cancelled, s2) = checkCancelled (split_cancelled_at env) s1
              in if cancelled then (Inr cancelledOutput, s2)
                 else
                   (let totalRanges = length (split_ranges splitOptions);
                        progressPerRange = 75 / real totalRanges
                    in case split_loop env (file_name file) progressPerRange totalRanges 0
                              (split_ranges splitOptions) [] [] s2 of
                         (Threw error, s3) \<Rightarrow> (Inl error, s3)
                       | (Returned output, s3) \<Rightarrow> (Inr output, s3)
                       | (Completed (outputBlobs, outputFilenames), s3) \<Rightarrow>
                           (let (output, s4) =
                                  split_finish splitOptions totalPages outputBlobs outputFilenames s3
                            in (Inr output, s4)))))"

text \<open>
  The body of the \<open>try\<close> block of \<open>SplitPDFProcessor.process\<close>. A failure to load the
  source whose message mentions encryption is reported as such; any other is thrown on.
\<close>

definition split_try ::
  "SplitEnv \<Rightarrow> File \<Rightarrow> SplitOptions \<Rightarrow> run_state \<Rightarrow> (thrown + SplitOutput) \<times> run_state" where
  "split_try env file splitOptions s =
     (let s1 = updateProgress 5 s
      in case loadPdfLib_result env of
           Some error \<Rightarrow> (Inl error, s1)
         | None \<Rightarrow>
           (let (cancelled, s2) = checkCancelled (split_cancelled_at env) s1
            in if cancelled then (Inr cancelledOutput, s2)
               else
                 (let s3 = updateProgress 10 s2
                  in case arrayBuffer_result env of
                       Some error \<Rightarrow> (Inl error, s3)
                     | None \<Rightarrow>
                       (case loadSource_result env of
                          Inl (Error message) \<Rightarrow>
                            if string_includes message ''encrypt''
                            then (Inr (ErrorOutput PDF_ENCRYPTED ''The PDF file is encrypted.''
                                         (Some ''Please decrypt the file before splitting.'')), s3)
                            else (Inl (Error message), s3)
                        | Inl NonError \<Rightarrow> (Inl NonError, s3)
                        | Inr totalPages \<Rightarrow> split_extract env file splitOptions totalPages s3))))"

text \<open>
  \<open>SplitPDFProcessor.process\<close>: one file and at least one range are required; then the
  \<open>try\<close> block and its \<open>catch\<close>.
\<close>

definition Split_process ::
  "SplitEnv \<Rightarrow> File list \<Rightarrow> SplitOptions \<Rightarrow> run_state \<Rightarrow> SplitOutput \<times> run_state" where
  "Split_process env files splitOptions s =
     (let s0 = reset s
      in case files of
           [file] \<Rightarrow>
             if length (split_ranges splitOptions) = 0
             then (ErrorOutput INVALID_OPTIONS ''At least one page range is required for splitting.''
                     (Some ''Please specify page ranges to extract.''), s0)
             else
               (case split_try env file splitOptions s0 of
                  (Inr output, s') \<Rightarrow> (output, s')
                | (Inl error, s') \<Rightarrow>
                    (ErrorOutput PROCESSING_FAILED ''Failed to split PDF file.''
                       (Some (error_message error)), s'))
         | other \<Rightarrow>
             (ErrorOutput INVALID_OPTIONS ''Exactly 1 PDF file is required for splitting.''
                (Some (''Received '' @ string_of_nat (length files) @ '' file(s).'')), s0))"

text \<open>
  A progress log is in order up to a bound: it is non-decreasing and its values lie
  between 0 and the bound.
\<close>

definition log_within :: "real \<Rightarrow> 'a run_state_scheme \<Rightarrow> bool" where
  "log_within bound s \<longleftrightarrow>
     sorted (progress_log s) \<and> (\<forall>v\<in>set (progress_log s). 0 \<le> v \<and> v \<le> bound)"

subsection \<open>Sample runs of the split processor\<close>

definition sample_split_env :: "nat option \<Rightarrow> SplitEnv" where
  "sample_split_env cancel =
     \<lparr>split_cancelled_at = (\<lambda>k. cancel = Some k),
      loadPdfLib_result = None,
      arrayBuffer_result = None,
      loadSource_result = Inr 12,
      extract_result = (\<lambda>i. None)\<rparr>"

definition sample_split_options :: SplitOptions where
  "sample_split_options =
     \<lparr>split_ranges = [\<lparr>range_start = 1, range_end = 5\<rparr>, \<lparr>range_start = 6, range_end = 12\<rparr>],
      split_outputFormat = MultipleOutput\<rparr>"

definition fresh_run_state :: run_state where
  "fresh_run_state = \<lparr>progress_log = [], cancel_checks = 0\<rparr>"

section \<open>Text colour processor\<close>

text \<open>\<open>pages\<close> is the string \<open>'all'\<close> or an array of page numbers.\<close>

datatype PageSelection = AllPages | PageList "int list"

datatype TextColorMode = DarkMode | LightMode

text \<open>The options after the defaults have been filled in.\<close>

record TextColorOptions =
  tc_color :: RGBColor
  tc_pages :: PageSelection
  tc_mode :: TextColorMode
  tc_threshold :: real
  tc_scale :: real

text \<open>
  What rendering one page gives: the size of the page at scale 1 and the RGBA bytes of
  the canvas at the render scale.
\<close>

record RenderedPage =
  originalWidth :: real
  originalHeight :: real
  image_data :: "byte list"

text \<open>
  A page of the new document: the page number it was rendered from, its size, and the
  image drawn on it.
\<close>

record OutputPage =
  source_page :: int
  page_width :: real
  page_height :: real
  page_image :: "byte list"

text \<open>
  A page of a saved document: a page that the processor added, or the page that pdf-lib
  adds by its own when a document without any page is saved (its \<open>save\<close> option
  \<open>addDefaultPage\<close> is on unless it is switched off, and the processor passes only
  \<open>useObjectStreams\<close>).
\<close>

datatype PdfPage = AddedPage OutputPage | DefaultPage

fun page_source :: "PdfPage \<Rightarrow> int option" where
  "page_source (AddedPage page) = Some (source_page page)"
| "page_source DefaultPage = None"

text \<open>The pages of the document that \<open>newPdf.save\<close> writes.\<close>

definition savedDocument :: "OutputPage list \<Rightarrow> PdfPage list" where
  "savedDocument newPdf = (if newPdf = [] then [DefaultPage] else map AddedPage newPdf)"

type_synonym TextColorOutput = "(PdfPage list, nat) ProcessOutput"

text \<open>
  The collaborators of one text-colour run: loading pdf-lib and pdf.js; reading the file
  and opening it with pdf.js, which gives the number of pages; getting and rendering the
  page with a given number at a given scale; encoding the canvas as PNG and embedding it;
  saving the new document.
\<close>

record TextColorEnv =
  tc_cancelled_at :: "nat \<Rightarrow> bool"
  loadLibraries_result :: "thrown option"
  openDocument_result :: "thrown + nat"
  renderPage_result :: "int \<Rightarrow> real \<Rightarrow> thrown + RenderedPage"
  embedPng_result :: "int \<Rightarrow> thrown option"
  saveDocument_result :: "thrown option"

text \<open>
  The loop over \<open>pagesToProcess\<close>, at index \<open>i\<close> with the page numbers still to do;
  \<open>count\<close> is \<open>pagesToProcess.length\<close> and \<open>newPdf\<close> the pages added so far.
\<close>

fun textcolor_loop ::
  "TextColorEnv \<Rightarrow> TextColorOptions \<Rightarrow> nat \<Rightarrow> nat \<Rightarrow> int list \<Rightarrow> OutputPage list \<Rightarrow> run_state
     \<Rightarrow> (TextColorOutput, OutputPage list) loop_end \<times> run_state" where
  "textcolor_loop env textOptions count i [] newPdf s = (Completed newPdf, s)"
| "textcolor_loop env textOptions count i (pageNum # rest) newPdf s =
     (let (cancelled, s1) = checkCancelled (tc_cancelled_at env) s
      in if cancelled then (Returned cancelledOutput, s1)
         else
           (let progressPercent = 15 + (75 * (real i / real count));
                s2 = updateProgress progressPercent s1;
                renderScale = (if tc_scale textOptions = 0 then 3 else tc_scale textOptions)
            in case renderPage_result env pageNum renderScale of
                 Inl error \<Rightarrow> (Threw error, s2)
               | Inr rendered \<Rightarrow>
                   (let data = recolor (tc_mode textOptions = DarkMode) (tc_threshold textOptions)
                                 (tc_color textOptions) (image_data rendered)
                    in case embedPng_result env pageNum of
                         Some error \<Rightarrow> (Threw error, s2)
                       | None \<Rightarrow>
                           (let newPage = \<lparr>source_page = pageNum,
                                           page_width = originalWidth rendered,
                                           page_height = originalHeight rendered,
                                           page_image = data\<rparr>
                            in textcolor_loop env textOptions count (i + 1) rest
                                 (newPdf @ [newPage]) s2))))"

text \<open>
  The page numbers to process: all of them, or the given list as it is.
\<close>

definition textcolor_pagesToProcess :: "TextColorOptions \<Rightarrow> nat \<Rightarrow> int list" where
  "textcolor_pagesToProcess textOptions totalPages =
     (case tc_pages textOptions of
        AllPages \<Rightarrow> map (\<lambda>i. int i + 1) [0..<totalPages]
      | PageList pages \<Rightarrow> pages)"

text \<open>The body of the \<open>try\<close> block of \<open>TextColorProcessor.process\<close>.\<close>

definition textcolor_try ::
  "TextColorEnv \<Rightarrow> File \<Rightarrow> TextColorOptions \<Rightarrow> run_state
     \<Rightarrow> (thrown + TextColorOutput) \<times> run_state" where
  "textcolor_try env file textOptions s =
     (let s1 = updateProgress 5 s
      in case loadLibraries_result env of
           Some error \<Rightarrow> (Inl error, s1)
         | None \<Rightarrow>
           (let s2 = updateProgress 10 s1
            in case openDocument_result env of
                 Inl error \<Rightarrow> (Inl error, s2)
               | Inr totalPages \<Rightarrow>
                   (let pagesToProcess = textcolor_pagesToProcess textOptions totalPages;
                        s3 = updateProgress 15 s2
                    in case textcolor_loop env textOptions (length pagesToProcess) 0
                              pagesToProcess [] s3 of
                         (Threw error, s4) \<Rightarrow> (Inl error, s4)
                       | (Returned output, s4) \<Rightarrow> (Inr output, s4)
                       | (Completed newPdf, s4) \<Rightarrow>
                           (let s5 = updateProgress 95 s4
                            in case saveDocument_result env of
                                 Some error \<Rightarrow> (Inl error, s5)
                               | None \<Rightarrow>
                                   (let s6 = updateProgress 100 s5
                                    in (Inr (SuccessOutput (savedDocument newPdf)
                                               (replace_first (file_name file) ''.pdf''
                                                  ''_textcolor.pdf'')
                                               (length pagesToProcess)), s6))))))"

text \<open>\<open>TextColorProcessor.process\<close>\<close>

definition TextColor_process ::
  "TextColorEnv \<Rightarrow> File list \<Rightarrow> TextColorOptions \<Rightarrow> run_state
     \<Rightarrow> TextColorOutput \<times> run_state" where
  "TextColor_process env files textOptions s =
     (let s0 = reset s
      in case files of
           [file] \<Rightarrow>
             (case textcolor_try env file textOptions s0 of
                (Inr output, s') \<Rightarrow> (output, s')
              | (Inl error, s') \<Rightarrow>
                  (ErrorOutput PROCESSING_FAILED ''Failed to change text color.''
                     (Some (error_message error)), s'))
         | other \<Rightarrow> (ErrorOutput INVALID_OPTIONS ''Exactly 1 PDF file is required.'' None, s0))"

subsection \<open>Sample runs of the text colour processor\<close>

text \<open>
  A three-page document; as pdf.js does, getting a page whose number is not in 1..3 is
  rejected with \<open>Invalid page request.\<close>
\<close>

definition sample_textcolor_env :: TextColorEnv where
  "sample_textcolor_env =
     \<lparr>tc_cancelled_at = (\<lambda>k. False),
      loadLibraries_result = None,
      openDocument_result = Inr 3,
      renderPage_result =
        (\<lambda>pageNum renderScale.
           if 1 \<le> pageNum \<and> pageNum \<le> 3
           then Inr \<lparr>originalWidth = 612, originalHeight = 792,
                     image_data = [10, 20, 30, 255, 200, 200, 200, 128]\<rparr>
           else Inl (Error ''Invalid page request.'')),
      embedPng_result = (\<lambda>pageNum. None),
      saveDocument_result = None\<rparr>"

definition sample_textcolor_options :: "PageSelection \<Rightarrow> TextColorOptions" where
  "sample_textcolor_options pages =
     \<lparr>tc_color = \<lparr>color_r = 1, color_g = 0, color_b = 0\<rparr>, tc_pages = pages,
      tc_mode = DarkMode, tc_threshold = 128, tc_scale = 3\<rparr>"

section \<open>Background colour processor: which pages are tinted\<close>

text \<open>
  \<open>pagesToProcess\<close> of \<open>BackgroundColorProcessor.process\<close>, as 0-based indices, and the
  indices for which its loop over \<open>0..totalPages - 1\<close> draws the rectangle
  (\<open>pagesToProcess.includes(i)\<close>).
\<close>

definition background_pagesToProcess :: "PageSelection \<Rightarrow> nat \<Rightarrow> int list" where
  "background_pagesToProcess pages totalPages =
     (case pages of
        AllPages \<Rightarrow> map int [0..<totalPages]
      | PageList numbers \<Rightarrow> map (\<lambda>p. p - 1) numbers)"

definition background_tinted :: "PageSelection \<Rightarrow> nat \<Rightarrow> nat list" where
  "background_tinted pages totalPages =
     filter (\<lambda>i. int i \<in> set (background_pagesToProcess pages totalPages)) [0..<totalPages]"

chapter \<open>Verified properties\<close>

section \<open>Range validation\<close>

lemma checkRange_None_iff:
  "checkRange i rng totalPages = None \<longleftrightarrow> range_in_bounds rng totalPages"
  by (auto simp: checkRange_def range_in_bounds_def)

lemma validate_from_all_in_bounds:
  "\<forall>r\<in>set ranges. range_in_bounds r totalPages \<Longrightarrow> validate_from i ranges totalPages = None"
  by (induction ranges arbitrary: i) (simp_all add: checkRange_None_iff [THEN iffD2])

lemma validate_from_first_violation:
  assumes "k < length ranges"
    and "\<forall>j<k. range_in_bounds (ranges ! j) totalPages"
    and "\<not> range_in_bounds (ranges ! k) totalPages"
  shows "validate_from i ranges totalPages = checkRange (i + k) (ranges ! k) totalPages"
  using assms
proof (induction ranges arbitrary: i k)
  case Nil
  then show ?case by simp
next
  case (Cons rng rest)
  show ?case
  proof (cases k)
    case 0
    with Cons.prems(3) have "checkRange i rng totalPages \<noteq> None"
      by (simp add: checkRange_None_iff)
    with 0 show ?thesis by (auto split: option.splits)
  next
    case (Suc k')
    from Cons.prems(2) Suc have head: "checkRange i rng totalPages = None"
      by (auto simp: checkRange_None_iff)
    have "validate_from (i + 1) rest totalPages = checkRange (i + 1 + k') (rest ! k') totalPages"
    proof (rule Cons.IH)
      show "k' < length rest" using Cons.prems(1) Suc by simp
      show "\<forall>j<k'. range_in_bounds (rest ! j) totalPages"
        using Cons.prems(2) Suc by auto
      show "\<not> range_in_bounds (rest ! k') totalPages"
        using Cons.prems(3) Suc by simp
    qed
    with head Suc show ?thesis by simp
  qed
qed

text \<open>
  Claim C3. Ranges are examined in the order given. When the range at 0-based position
  \<open>k\<close> is the first to violate \<open>start \<ge> 1\<close>, \<open>end \<ge> start\<close> or \<open>end \<le> totalPages\<close>,
  validation returns an error for that range: the message starts with the 1-based
  position \<open>k + 1\<close> and continues with the text of the first bound that the range breaks,
  whatever the later ranges are. The range \<open>{start: 13, end: 14}\<close> against 12 pages is
  rejected as range 1 with the end-exceeds-total message.
\<close>

theorem validatePageRanges_first_violation:
  assumes "k < length ranges"
    and "\<forall>j<k. range_in_bounds (ranges ! j) totalPages"
    and "\<not> range_in_bounds (ranges ! k) totalPages"
  shows "validatePageRanges ranges totalPages =
           Some (''Range '' @ string_of_nat (k + 1) @ '': '' @
             (if range_start (ranges ! k) < 1 then ''Start page must be at least 1.''
              else if range_end (ranges ! k) < range_start (ranges ! k) then
                ''End page ('' @ string_of_int (range_end (ranges ! k))
                  @ '') cannot be less than start page (''
                  @ string_of_int (range_start (ranges ! k)) @ '').''
              else ''End page ('' @ string_of_int (range_end (ranges ! k))
                  @ '') exceeds total pages ('' @ string_of_int totalPages @ '').''))
         \<and> validatePageRanges (take k ranges) totalPages = None
         \<and> validatePageRanges [\<lparr>range_start = 13, range_end = 14\<rparr>] 12 =
             Some ''Range 1: End page (14) exceeds total pages (12).''"
proof (intro conjI)
  have "validatePageRanges ranges totalPages = checkRange k (ranges ! k) totalPages"
    unfolding validatePageRanges_def
    using validate_from_first_violation [OF assms, of 0] by simp
  with assms(3) show "validatePageRanges ranges totalPages =
           Some (''Range '' @ string_of_nat (k + 1) @ '': '' @
             (if range_start (ranges ! k) < 1 then ''Start page must be at least 1.''
              else if range_end (ranges ! k) < range_start (ranges ! k) then
                ''End page ('' @ string_of_int (range_end (ranges ! k))
                  @ '') cannot be less than start page (''
                  @ string_of_int (range_start (ranges ! k)) @ '').''
              else ''End page ('' @ string_of_int (range_end (ranges ! k))
                  @ '') exceeds total pages ('' @ string_of_int totalPages @ '').''))"
    by (auto simp: checkRange_def range_in_bounds_def)
next
  have "\<forall>r\<in>set (take k ranges). range_in_bounds r totalPages"
    using assms(1,2) by (auto simp: in_set_conv_nth)
  then show "validatePageRanges (take k ranges) totalPages = None"
    by (simp add: validatePageRanges_def validate_from_all_in_bounds)
next
  show "validatePageRanges [\<lparr>range_start = 13, range_end = 14\<rparr>] 12 =
             Some ''Range 1: End page (14) exceeds total pages (12).''"
    by (simp add: validatePageRanges_def checkRange_def string_of_int_def
        string_of_nat.simps digit_char_def)
qed

theorem validatePageRanges_first_violation_witness:
  "validatePageRanges [\<lparr>range_start = 1, range_end = 5\<rparr>, \<lparr>range_start = 13, range_end = 14\<rparr>] 12 =
     Some ''Range 2: End page (14) exceeds total pages (12).''
   \<and> validatePageRanges [\<lparr>range_start = 1, range_end = 5\<rparr>] 12 = None"
  using validatePageRanges_first_violation
    [of 1 "[\<lparr>range_start = 1, range_end = 5\<rparr>, \<lparr>range_start = 13, range_end = 14\<rparr>]" 12]
  by (simp add: range_in_bounds_def string_of_int_def string_of_nat.simps digit_char_def)

section \<open>Page layout\<close>

text \<open>
  Claim C2, as stated, at a concrete input: a FIT page for a 100 x 200 image with margin
  10 and orientation landscape is 220 x 120, not 120 x 220: the orientation step has
  exchanged the two dimensions of the fitted page.
\<close>

theorem calculatePageDimensions_fit_landscape_counterexample:
  "calculatePageDimensions 100 200
     \<lparr>pageSize = Preset FIT, orientation = Landscape, margin = 10, quality = 0.92,
      centerImage = True, scaleToFit = True, svgScale = 2\<rparr>
   = (220, 120)
   \<and> calculatePageDimensions 100 200
     \<lparr>pageSize = Preset FIT, orientation = Landscape, margin = 10, quality = 0.92,
      centerImage = True, scaleToFit = True, svgScale = 2\<rparr>
   \<noteq> (100 + 2 * 10, 200 + 2 * 10)"
  by (simp add: calculatePageDimensions_def)

text \<open>
  Claim C2, amended. With the FIT preset the fitted size is the content size plus the
  margin on all sides. Orientation auto returns it unchanged. Orientation landscape
  exchanges its two dimensions when the fitted page is narrower than high, orientation
  portrait when it is wider than high; otherwise they return it unchanged.
\<close>

theorem calculatePageDimensions_fit:
  assumes "pageSize options = Preset FIT"
  shows "calculatePageDimensions imageWidth imageHeight options =
           (let fitWidth = imageWidth + 2 * margin options;
                fitHeight = imageHeight + 2 * margin options
            in case orientation options of
                 Auto \<Rightarrow> (fitWidth, fitHeight)
               | Landscape \<Rightarrow>
                   (if fitWidth < fitHeight then (fitHeight, fitWidth) else (fitWidth, fitHeight))
               | Portrait \<Rightarrow>
                   (if fitWidth > fitHeight then (fitHeight, fitWidth) else (fitWidth, fitHeight)))"
  using assms by (simp add: calculatePageDimensions_def Let_def split: Orientation.splits)

theorem calculatePageDimensions_fit_witness:
  "calculatePageDimensions 300 200
     \<lparr>pageSize = Preset FIT, orientation = Auto, margin = 10, quality = 0.92,
      centerImage = True, scaleToFit = True, svgScale = 2\<rparr> = (320, 220)
   \<and> calculatePageDimensions 300 200
     \<lparr>pageSize = Preset FIT, orientation = Portrait, margin = 10, quality = 0.92,
      centerImage = True, scaleToFit = True, svgScale = 2\<rparr> = (220, 320)"
  using calculatePageDimensions_fit [of "\<lparr>pageSize = Preset FIT, orientation = Auto,
      margin = 10, quality = 0.92, centerImage = True, scaleToFit = True, svgScale = 2\<rparr>" 300 200]
    calculatePageDimensions_fit [of "\<lparr>pageSize = Preset FIT, orientation = Portrait,
      margin = 10, quality = 0.92, centerImage = True, scaleToFit = True, svgScale = 2\<rparr>" 300 200]
  by simp

text \<open>
  Claim C5. With scale-to-fit enabled and an image of positive width and height, the
  placement is the image size times \<open>min (availableWidth / imageWidth,
  availableHeight / imageHeight, 1)\<close>, and so neither the placed width nor the placed
  height exceeds the image's own, for every page size and margin.
\<close>

theorem calculateImagePlacement_never_upscales:
  assumes "scaleToFit options" and "0 < imageWidth" and "0 < imageHeight"
  shows "(let p = calculateImagePlacement imageWidth imageHeight pageWidth pageHeight options;
              scale = min (min ((pageWidth - 2 * margin options) / imageWidth)
                               ((pageHeight - 2 * margin options) / imageHeight)) 1
          in place_width p = imageWidth * scale \<and> place_height p = imageHeight * scale
             \<and> place_width p \<le> imageWidth \<and> place_height p \<le> imageHeight)"
proof -
  define scale where "scale = min (min ((pageWidth - 2 * margin options) / imageWidth)
                               ((pageHeight - 2 * margin options) / imageHeight)) 1"
  have le: "scale \<le> 1" by (simp add: scale_def)
  have w: "imageWidth * scale \<le> imageWidth"
    using mult_left_mono [OF le, of imageWidth] assms(2) by simp
  have h: "imageHeight * scale \<le> imageHeight"
    using mult_left_mono [OF le, of imageHeight] assms(3) by simp
  have "calculateImagePlacement imageWidth imageHeight pageWidth pageHeight options =
        \<lparr>place_x = (if centerImage options then (pageWidth - imageWidth * scale) / 2
                    else margin options),
         place_y = (if centerImage options then (pageHeight - imageHeight * scale) / 2
                    else margin options),
         place_width = imageWidth * scale, place_height = imageHeight * scale\<rparr>"
    using assms(1) by (simp add: calculateImagePlacement_def Let_def scale_def mult.commute)
  with w h show ?thesis by (simp add: Let_def scale_def)
qed

theorem calculateImagePlacement_never_upscales_witness:
  "(let options = \<lparr>pageSize = Preset A4, orientation = Auto, margin = 10, quality = 0.92,
                   centerImage = True, scaleToFit = True, svgScale = 2\<rparr>;
        p = calculateImagePlacement 1000 500 300 400 options
    in scaleToFit options \<and> (0::real) < 1000 \<and> (0::real) < 500
       \<and> place_width p = 280 \<and> place_height p = 140
       \<and> place_width p \<le> 1000 \<and> place_height p \<le> 500)"
  using calculateImagePlacement_never_upscales [of "\<lparr>pageSize = Preset A4, orientation = Auto,
      margin = 10, quality = 0.92, centerImage = True, scaleToFit = True, svgScale = 2\<rparr>"
      1000 500 300 400]
  by (simp add: Let_def)

section \<open>Recolouring\<close>

lemma length_recolor: "length (recolor d t c data) = length data"
  by (induction d t c data rule: recolor.induct) auto

lemma nth_skip_pixel:
  "(pr # pg # pb # a # rest) ! (4 * Suc k + i) = rest ! (4 * k + i)"
  "(pr # pg # pb # a # rest) ! (4 * Suc k) = rest ! (4 * k)"
  by simp_all

lemma recolor_pixel:
  assumes "4 * k + 3 < length data"
  shows "recolor d t c data ! (4 * k + 3) = data ! (4 * k + 3)
       \<and> (shouldChange d t (data ! (4 * k)) (data ! (4 * k + 1)) (data ! (4 * k + 2)) \<longrightarrow>
            recolor d t c data ! (4 * k) = toUint8Clamp (color_r c * 255)
          \<and> recolor d t c data ! (4 * k + 1) = toUint8Clamp (color_g c * 255)
          \<and> recolor d t c data ! (4 * k + 2) = toUint8Clamp (color_b c * 255))
       \<and> (\<not> shouldChange d t (data ! (4 * k)) (data ! (4 * k + 1)) (data ! (4 * k + 2)) \<longrightarrow>
            recolor d t c data ! (4 * k) = data ! (4 * k)
          \<and> recolor d t c data ! (4 * k + 1) = data ! (4 * k + 1)
          \<and> recolor d t c data ! (4 * k + 2) = data ! (4 * k + 2))"
  using assms
proof (induction d t c data arbitrary: k rule: recolor.induct)
  case (1 d t c pr pg pb a rest)
  show ?case
  proof (cases k)
    case 0
    then show ?thesis by simp
  next
    case (Suc k')
    from "1.prems" Suc have "4 * k' + 3 < length rest" by simp
    then have ih: "recolor d t c rest ! (4 * k' + 3) = rest ! (4 * k' + 3)
       \<and> (shouldChange d t (rest ! (4 * k')) (rest ! (4 * k' + 1)) (rest ! (4 * k' + 2)) \<longrightarrow>
            recolor d t c rest ! (4 * k') = toUint8Clamp (color_r c * 255)
          \<and> recolor d t c rest ! (4 * k' + 1) = toUint8Clamp (color_g c * 255)
          \<and> recolor d t c rest ! (4 * k' + 2) = toUint8Clamp (color_b c * 255))
       \<and> (\<not> shouldChange d t (rest ! (4 * k')) (rest ! (4 * k' + 1)) (rest ! (4 * k' + 2)) \<longrightarrow>
            recolor d t c rest ! (4 * k') = rest ! (4 * k')
          \<and> recolor d t c rest ! (4 * k' + 1) = rest ! (4 * k' + 1)
          \<and> recolor d t c rest ! (4 * k' + 2) = rest ! (4 * k' + 2))"
      using "1.IH"(1) [of k'] "1.IH"(2) [of k'] by blast
    show ?thesis
      unfolding Suc recolor.simps if_distrib [of "\<lambda>xs. xs ! _"] nth_skip_pixel if_cancel
      using ih by blast
  qed
qed simp_all

text \<open>
  Claim C4. For every complete RGBA pixel \<open>k\<close> of the buffer, with brightness the
  arithmetic mean of its R, G and B bytes: the pass keeps the length of the buffer and the
  alpha byte of the pixel; if the pixel satisfies the mode's test (mean strictly below the
  threshold in dark mode, strictly above it in light mode) its R, G and B become the bytes
  stored for the target colour; if it does not, its R, G and B are unchanged.
\<close>

theorem recolor_pixelwise:
  assumes "4 * k + 3 < length data"
  shows "(let out = recolor isDarkMode threshold color data;
              pixelR = data ! (4 * k); pixelG = data ! (4 * k + 1); pixelB = data ! (4 * k + 2);
              brightness = (real (unat pixelR) + real (unat pixelG) + real (unat pixelB)) / 3;
              selected = (if isDarkMode then brightness < threshold else brightness > threshold)
          in length out = length data
           \<and> out ! (4 * k + 3) = data ! (4 * k + 3)
           \<and> (selected \<longrightarrow>
                  out ! (4 * k) = toUint8Clamp (color_r color * 255)
                \<and> out ! (4 * k + 1) = toUint8Clamp (color_g color * 255)
                \<and> out ! (4 * k + 2) = toUint8Clamp (color_b color * 255))
           \<and> (\<not> selected \<longrightarrow>
                  out ! (4 * k) = pixelR \<and> out ! (4 * k + 1) = pixelG \<and> out ! (4 * k + 2) = pixelB))"
  using recolor_pixel [OF assms, of isDarkMode threshold color]
  by (simp add: Let_def length_recolor shouldChange_def)

theorem recolor_pixelwise_witness:
  "(let data = [10, 20, 30, 255, 200, 200, 200, 128] :: byte list;
        out = recolor True 128 \<lparr>color_r = 1, color_g = 0, color_b = 0\<rparr> data
    in 4 * 0 + 3 < length data \<and> 4 * 1 + 3 < length data
     \<and> out ! 0 = 255 \<and> out ! 1 = 0 \<and> out ! 2 = 0 \<and> out ! 3 = 255
     \<and> out ! 4 = 200 \<and> out ! 5 = 200 \<and> out ! 6 = 200 \<and> out ! 7 = 128)"
  using recolor_pixelwise [of 0 "[10, 20, 30, 255, 200, 200, 200, 128]" True 128
      "\<lparr>color_r = 1, color_g = 0, color_b = 0\<rparr>"]
    recolor_pixelwise [of 1 "[10, 20, 30, 255, 200, 200, 200, 128]" True 128
      "\<lparr>color_r = 1, color_g = 0, color_b = 0\<rparr>"]
  by (simp add: Let_def toUint8Clamp_def shouldChange_def)

section \<open>Parsing page ranges\<close>














































section \<open>The OCR session\<close>

lemma updateProgress_session [simp]:
  "tesseractWorker (updateProgress p s) = tesseractWorker s"
  "workers_created (updateProgress p s) = workers_created s"
  "terminated (updateProgress p s) = terminated s"
  by (simp_all add: updateProgress_def)

lemma checkCancelled_session:
  assumes "checkCancelled c s = (cancelled, s1)"
  shows "tesseractWorker s1 = tesseractWorker s" "workers_created s1 = workers_created s"
    "terminated s1 = terminated s"
  using assms by (auto simp: checkCancelled_def)

lemma reset_session [simp]:
  "tesseractWorker (reset s) = tesseractWorker s"
  "workers_created (reset s) = workers_created s"
  "terminated (reset s) = terminated s"
  by (simp_all add: reset_def)

lemma terminateTesseract_null:
  "tesseractWorker s = None \<Longrightarrow> terminateTesseract env s = (None, s)"
  by (simp add: terminateTesseract_def)

lemma terminateTesseract_resolves:
  "tesseractWorker s = Some w \<Longrightarrow> terminate_result env (length (terminated s)) = None \<Longrightarrow>
     terminateTesseract env s =
       (None, s\<lparr>terminated := terminated s @ [w], tesseractWorker := None\<rparr>)"
  by (simp add: terminateTesseract_def Let_def)

lemma terminateTesseract_rejects:
  "tesseractWorker s = Some w \<Longrightarrow>
   terminate_result env (length (terminated s)) = Some error \<Longrightarrow>
     terminateTesseract env s = (Some error, s\<lparr>terminated := terminated s @ [w]\<rparr>)"
  by (simp add: terminateTesseract_def Let_def)

lemma ocr_loop_session:
  assumes "tesseractWorker s = Some w"
    and "terminate_result env (length (terminated s)) = None"
    and "ocr_loop env progressPerPage i pages textResults s = (r, s')"
  shows "workers_created s' = workers_created s
       \<and> (case r of
             Threw error \<Rightarrow> False
           | Returned out \<Rightarrow> tesseractWorker s' = None \<and> terminated s' = terminated s @ [w]
           | Completed results \<Rightarrow> tesseractWorker s' = Some w \<and> terminated s' = terminated s)"
  using assms
proof (induction pages arbitrary: i textResults s)
  case Nil
  then show ?case by auto
next
  case (Cons pageNum rest)
  obtain cancelled s1 where c: "checkCancelled (ocr_cancelled_at env) s = (cancelled, s1)"
    by (cases "checkCancelled (ocr_cancelled_at env) s")
  have s1: "tesseractWorker s1 = Some w" "workers_created s1 = workers_created s"
    "terminated s1 = terminated s"
    using checkCancelled_session [OF c] Cons.prems(1) by simp_all
  show ?case
  proof (cases cancelled)
    case True
    have "terminateTesseract env s1 =
        (None, s1\<lparr>terminated := terminated s1 @ [w], tesseractWorker := None\<rparr>)"
      using s1 Cons.prems(2) by (intro terminateTesseract_resolves) simp_all
    with Cons.prems(3) c True
    have "r = Returned cancelledOutput"
      "s' = s1\<lparr>terminated := terminated s1 @ [w], tesseractWorker := None\<rparr>"
      by simp_all
    with s1 show ?thesis by simp
  next
    case False
    define s2 where "s2 = updateProgress (25 + real i * progressPerPage) s1"
    have s2: "tesseractWorker s2 = Some w" "workers_created s2 = workers_created s"
      "terminated s2 = terminated s"
      using s1 by (simp_all add: s2_def)
    have resolves: "terminate_result env (length (terminated s2)) = None"
      using Cons.prems(2) s2 by simp
    from Cons.prems(3) c False
    have "ocr_loop env progressPerPage (i + 1) rest
            (textResults @ [pageEntry pageNum (ocrPage env pageNum s2)]) s2 = (r, s')"
      by (simp add: Let_def s2_def)
    from Cons.IH [OF s2(1) resolves this] s2 show ?thesis
      by (simp split: loop_end.splits)
  qed
qed

lemma ocr_finish_session:
  assumes "tesseractWorker s = Some w"
    and "terminate_result env (length (terminated s)) = None"
    and "ocr_finish env file ocrOptions pagesToOCR textResults s = (r, s')"
  shows "tesseractWorker s' = None \<and> terminated s' = terminated s @ [w]
       \<and> workers_created s' = workers_created s"
  using assms(3) terminateTesseract_resolves [OF assms(1,2)]
  by (auto simp: ocr_finish_def Let_def split: if_splits sum.splits)

lemma ocr_try_session:
  assumes "ocr_try env file ocrOptions s = (r, s')"
    and "terminate_result env (length (terminated s)) = None"
  shows "(workers_created s' = workers_created s \<and> terminated s' = terminated s
          \<and> tesseractWorker s' = tesseractWorker s)
       \<or> (workers_created s' = workers_created s + 1
          \<and> ((tesseractWorker s' = None \<and> terminated s' = terminated s @ [workers_created s])
             \<or> ((\<exists>error. r = Inl error) \<and> tesseractWorker s' = Some (workers_created s)
                \<and> terminated s' = terminated s)))"
proof (cases "loadPdfjs_result env")
  case (Some error)
  with assms show ?thesis by (auto simp: ocr_try_def)
next
  case None
  define s1 where "s1 = updateProgress 5 s"
  obtain cancelled s2 where c: "checkCancelled (ocr_cancelled_at env) s1 = (cancelled, s2)"
    by (cases "checkCancelled (ocr_cancelled_at env) s1")
  have s2: "tesseractWorker s2 = tesseractWorker s" "workers_created s2 = workers_created s"
    "terminated s2 = terminated s"
    using checkCancelled_session [OF c] by (simp_all add: s1_def)
  show ?thesis
  proof (cases cancelled)
    case True
    with assms None c s2 show ?thesis by (simp add: ocr_try_def s1_def)
  next
    case False
    define s3 where "s3 = updateProgress 10 s2"
    show ?thesis
    proof (cases "createWorker_result env")
      case (Some error)
      with assms None c False s2 show ?thesis
        by (auto simp: ocr_try_def s1_def initializeTesseract_def)
    next
      case noError: None
      define w where "w = workers_created s"
      define s4 where "s4 = s3\<lparr>tesseractWorker := Some (workers_created s3),
                                 workers_created := workers_created s3 + 1\<rparr>"
      define s5 where "s5 = updateProgress 20 s4"
      have init: "initializeTesseract env s3 = (None, s4)"
        using noError by (simp add: initializeTesseract_def s4_def)
      have s5: "tesseractWorker s5 = Some w" "workers_created s5 = workers_created s + 1"
        "terminated s5 = terminated s"
        using s2 by (simp_all add: s5_def s4_def s3_def w_def)
      show ?thesis
      proof (cases "getDocument_result env")
        case (Inl error)
        with assms None c False init s5 show ?thesis
          by (auto simp: ocr_try_def s1_def s3_def s5_def w_def)
      next
        case (Inr totalPages)
        define pagesToOCR where "pagesToOCR = selectPagesToOCR ocrOptions totalPages"
        show ?thesis
        proof (cases "length pagesToOCR = 0")
          case True
          have "terminateTesseract env s5 =
              (None, s5\<lparr>terminated := terminated s5 @ [w], tesseractWorker := None\<rparr>)"
            using s5 assms(2) by (intro terminateTesseract_resolves) simp_all
          with assms(1) None c False init Inr True
          have "s' = s5\<lparr>terminated := terminated s5 @ [w], tesseractWorker := None\<rparr>"
            by (simp add: ocr_try_def s1_def s3_def s5_def pagesToOCR_def Let_def)
          with s5 show ?thesis by (simp add: w_def)
        next
          case nonEmpty: False
          define s6 where "s6 = updateProgress 25 s5"
          have s6: "tesseractWorker s6 = Some w" "workers_created s6 = workers_created s + 1"
            "terminated s6 = terminated s"
            using s5 by (simp_all add: s6_def)
          have resolves: "terminate_result env (length (terminated s6)) = None"
            using assms(2) s6 by simp
          obtain lr s7 where loop:
            "ocr_loop env (70 / real (length pagesToOCR)) 0 pagesToOCR [] s6 = (lr, s7)"
            by (cases "ocr_loop env (70 / real (length pagesToOCR)) 0 pagesToOCR [] s6")
          note after_loop = ocr_loop_session [OF s6(1) resolves loop]
          show ?thesis
          proof (cases lr)
            case (Threw error)
            with after_loop show ?thesis by simp
          next
            case (Returned out)
            with assms(1) None c False init Inr nonEmpty loop have "s' = s7"
              by (simp add: ocr_try_def s1_def s3_def s5_def s6_def pagesToOCR_def Let_def)
            with after_loop Returned s6 show ?thesis by (simp add: w_def)
          next
            case results: (Completed textResults)
            with assms(1) None c False init Inr nonEmpty loop
            have finish: "ocr_finish env file ocrOptions pagesToOCR textResults s7 = (r, s')"
              by (simp add: ocr_try_def s1_def s3_def s5_def s6_def pagesToOCR_def Let_def)
            have alive: "tesseractWorker s7 = Some w" "terminated s7 = terminated s"
              "workers_created s7 = workers_created s + 1"
              using after_loop results s6 by simp_all
            have "terminate_result env (length (terminated s7)) = None"
              using assms(2) alive by simp
            from ocr_finish_session [OF alive(1) this finish] alive show ?thesis
              by (simp add: w_def)
          qed
        qed
      qed
    qed
  qed
qed

text \<open>
  Where the call of \<open>terminate()\<close> resolves: a run that has created its session returns an
  outcome, has made exactly one call of \<open>terminate()\<close>, on that session, and leaves
  \<open>tesseractWorker\<close> at \<open>null\<close>, whatever the exit path.
\<close>

lemma OCR_process_session_resolving:
  assumes "OCR_process env files ocrOptions s = (r, s')"
    and "workers_created s' \<noteq> workers_created s"
    and "terminate_result env (length (terminated s)) = None"
  shows "workers_created s' = workers_created s + 1
       \<and> terminated s' = terminated s @ [workers_created s]
       \<and> tesseractWorker s' = None
       \<and> (\<exists>out. r = Inr out)"
proof -
  from assms(1,2) obtain f where files: "files = [f]"
    by (cases files rule: list.exhaust [case_product list.exhaust])
       (auto simp: OCR_process_def Let_def split: list.splits)
  show ?thesis
  proof (cases "\<not> string_includes (file_type f) ''pdf''
                \<and> \<not> endsWith (toLowerCase (file_name f)) ''.pdf''")
    case True
    with assms(1,2) files show ?thesis by (auto simp: OCR_process_def Let_def)
  next
    case False
    obtain b s1 where body: "ocr_try env f ocrOptions (reset s) = (b, s1)"
      by (cases "ocr_try env f ocrOptions (reset s)")
    have "terminate_result env (length (terminated (reset s))) = None"
      using assms(3) by simp
    note session = ocr_try_session [OF body this]
    show ?thesis
    proof (cases b)
      case (Inr out)
      with assms(1) files False body have "s' = s1" "r = Inr out"
        by (auto simp: OCR_process_def Let_def)
      with session Inr assms(2) show ?thesis by auto
    next
      case (Inl error)
      obtain e s2 where t: "terminateTesseract env s1 = (e, s2)"
        by (cases "terminateTesseract env s1")
      have created: "workers_created s2 = workers_created s1"
        using t by (auto simp: terminateTesseract_def Let_def split: option.splits)
      from assms(1) files False body Inl t have s': "s' = s2"
        by (auto simp: OCR_process_def Let_def split: option.splits)
      from session assms(2) created s' consider
        (ended) "workers_created s1 = workers_created s + 1" "tesseractWorker s1 = None"
          "terminated s1 = terminated s @ [workers_created s]"
        | (alive) "workers_created s1 = workers_created s + 1"
          "tesseractWorker s1 = Some (workers_created s)" "terminated s1 = terminated s"
        by auto
      then show ?thesis
      proof cases
        case ended
        with t terminateTesseract_null [of s1 env] have "e = None" "s2 = s1" by simp_all
        with assms(1) files False body Inl t ended s' show ?thesis
          by (auto simp: OCR_process_def Let_def)
      next
        case alive
        have "terminate_result env (length (terminated s1)) = None"
          using assms(3) alive by simp
        from terminateTesseract_resolves [OF alive(2) this] t
        have "e = None"
          "s2 = s1\<lparr>terminated := terminated s1 @ [workers_created s], tesseractWorker := None\<rparr>"
          by simp_all
        with assms(1) files False body Inl t alive s' show ?thesis
          by (auto simp: OCR_process_def Let_def)
      qed
    qed
  qed
qed

lemmas ocr_run_defs =
  OCR_process_def ocr_try_def ocr_finish_def ocrPage_def pageEntry_def initializeTesseract_def
  selectPagesToOCR_def
  terminateTesseract_def checkCancelled_def updateProgress_def reset_def cancelledOutput_def
  sample_file_def sample_ocr_options_def sample_ocr_env_def sample_ocr_env_rejecting_def
  fresh_ocr_state_def
  endsWith_def toLowerCase_def lower_char_def stripPdfSuffix_def Let_def upt_rec

text \<open>
  Claim C6, at two runs in which \<open>terminate()\<close> rejects. Both jobs create the session,
  treat the two pages of the document and reach the teardown after the page loop. In the
  first the call of \<open>terminate()\<close> rejects once: the rejection is thrown inside the \<open>try\<close>,
  the \<open>catch\<close> calls \<open>terminate()\<close> on the same session again, and the job that had
  recognised its pages returns the failure outcome; \<open>terminate()\<close> has been called twice.
  In the second the call rejects both times: the \<open>catch\<close> itself throws, so the job
  function returns no outcome, and \<open>tesseractWorker\<close> still holds the session. The claim
  says one call and a \<open>null\<close> reference on every exit path.
\<close>

theorem OCR_process_terminate_rejects:
  "OCR_process (sample_ocr_env_rejecting None False [0]) [sample_file]
     (sample_ocr_options [] TextFormat) fresh_ocr_state =
     (Inr (ErrorOutput PROCESSING_FAILED ''Failed to perform OCR on PDF.''
             (Some ''worker crashed'')),
      \<lparr>progress_log = [5, 10, 20, 25, 25, 60], cancel_checks = 3,
       tesseractWorker = None, workers_created = 1, terminated = [0, 0]\<rparr>)
   \<and> OCR_process (sample_ocr_env_rejecting None False [0, 1]) [sample_file]
       (sample_ocr_options [] TextFormat) fresh_ocr_state =
     (Inl (Error ''worker crashed''),
      \<lparr>progress_log = [5, 10, 20, 25, 25, 60], cancel_checks = 3,
       tesseractWorker = Some 0, workers_created = 1, terminated = [0, 0]\<rparr>)"
  by (simp add: ocr_run_defs)

section \<open>Page failures in the OCR job\<close>

lemma ocr_loop_results:
  assumes "ocr_loop env ppp i pages acc s = (Completed results, s')"
    and "tesseractWorker s \<noteq> None"
  shows "results = acc @ map (\<lambda>p. pageEntry p (recognizePage_result env p)) pages"
  using assms
proof (induction pages arbitrary: i acc s)
  case Nil
  then show ?case by simp
next
  case (Cons pageNum rest)
  show ?case
  proof (cases "ocr_cancelled_at env (cancel_checks s)")
    case True
    with Cons.prems show ?thesis
      by (simp add: checkCancelled_def split: prod.splits option.splits)
  next
    case False
    define s2 where "s2 = updateProgress (25 + real i * ppp) (s\<lparr>cancel_checks := cancel_checks s + 1\<rparr>)"
    have w: "tesseractWorker s2 \<noteq> None"
      using Cons.prems(2) by (simp add: s2_def updateProgress_def)
    from Cons.prems(1) False
    have "ocr_loop env ppp (i + 1) rest (acc @ [pageEntry pageNum (ocrPage env pageNum s2)]) s2
            = (Completed results, s')"
      by (simp add: checkCancelled_def Let_def s2_def)
    from Cons.IH [OF this w] w show ?thesis by (simp add: ocrPage_def)
  qed
qed

lemma ocr_loop_Returned:
  "ocr_loop env ppp i pages acc s = (Returned out, s') \<Longrightarrow> out = cancelledOutput"
proof (induction pages arbitrary: i acc s)
  case Nil
  then show ?case by simp
next
  case (Cons pageNum rest)
  show ?case
  proof (cases "ocr_cancelled_at env (cancel_checks s)")
    case True
    with Cons.prems show ?thesis
      by (simp add: checkCancelled_def split: prod.splits option.splits)
  next
    case False
    with Cons.prems Cons.IH show ?thesis
      by (simp add: checkCancelled_def Let_def)
  qed
qed

lemma ocr_try_text:
  assumes "ocr_try env file opts s = (Inr (SuccessOutput (TextBlob text) filename metadata), s')"
    and "getDocument_result env = Inr totalPages"
  shows "text = join (map (\<lambda>p. pageEntry p (recognizePage_result env p))
                       (selectPagesToOCR opts totalPages)) [CHR 0x0A, CHR 0x0A]"
proof -
  define pages where "pages = selectPagesToOCR opts totalPages"
  define s2 where "s2 = snd (checkCancelled (ocr_cancelled_at env) (updateProgress 5 s))"
  define s6 where "s6 = updateProgress 25 (updateProgress 20
      ((updateProgress 10 s2)\<lparr>tesseractWorker := Some (workers_created (updateProgress 10 s2)),
          workers_created := workers_created (updateProgress 10 s2) + 1\<rparr>))"
  have worker: "tesseractWorker s6 \<noteq> None" by (simp add: s6_def)
  obtain lr s7 where loop: "ocr_loop env (70 / real (length pages)) 0 pages [] s6 = (lr, s7)"
    by (cases "ocr_loop env (70 / real (length pages)) 0 pages [] s6")
  have main: "ocr_try env file opts s =
      (case lr of Threw error \<Rightarrow> (Inl error, s7)
       | Returned out \<Rightarrow> (Inr out, s7)
       | Completed results \<Rightarrow> ocr_finish env file opts pages results s7)"
    if "loadPdfjs_result env = None" "\<not> ocr_cancelled_at env (cancel_checks (updateProgress 5 s))"
      "createWorker_result env = None" "pages \<noteq> []"
    using that assms(2) loop
    by (simp add: ocr_try_def Let_def initializeTesseract_def checkCancelled_def s2_def s6_def
        pages_def [symmetric] split: loop_end.splits)
  have pre: "loadPdfjs_result env = None \<and> \<not> ocr_cancelled_at env (cancel_checks (updateProgress 5 s))
      \<and> createWorker_result env = None \<and> pages \<noteq> []"
    using assms
    by (auto simp: ocr_try_def Let_def initializeTesseract_def checkCancelled_def
        cancelledOutput_def pages_def split: option.splits if_splits prod.splits)
  with main have eq: "(case lr of Threw error \<Rightarrow> (Inl error, s7)
       | Returned out \<Rightarrow> (Inr out, s7)
       | Completed results \<Rightarrow> ocr_finish env file opts pages results s7) =
       (Inr (SuccessOutput (TextBlob text) filename metadata), s')"
    using assms(1) by simp
  show ?thesis
  proof (cases lr)
    case (Threw error)
    with eq show ?thesis by simp
  next
    case (Returned out)
    with loop have "out = cancelledOutput" by (auto dest: ocr_loop_Returned)
    with eq Returned show ?thesis by (simp add: cancelledOutput_def)
  next
    case (Completed results)
    with loop
    have "ocr_loop env (70 / real (length pages)) 0 pages [] s6 = (Completed results, s7)"
      by simp
    from ocr_loop_results [OF this worker]
    have "results = map (\<lambda>p. pageEntry p (recognizePage_result env p)) pages" by simp
    moreover from eq Completed have "text = join results [CHR 0x0A, CHR 0x0A]"
      by (auto simp: ocr_finish_def Let_def split: if_splits sum.splits prod.splits option.splits)
    ultimately show ?thesis by (simp add: pages_def)
  qed
qed

text \<open>
  With the text format the success outcome carries the results of all the selected pages:
  its text is their entries, in order, joined by blank lines, and the entry of a page
  whose recognition threw is the page header followed by the marker
  \<open>[OCR Error: message]\<close>.
\<close>

lemma OCR_process_text:
  assumes "OCR_process env files opts s =
             (Inr (SuccessOutput (TextBlob text) filename metadata), s')"
    and "getDocument_result env = Inr totalPages"
  shows "text = join (map (\<lambda>p. pageEntry p (recognizePage_result env p))
                       (selectPagesToOCR opts totalPages)) [CHR 0x0A, CHR 0x0A]"
proof -
  from assms(1) obtain f s1 where
    "ocr_try env f opts (reset s) = (Inr (SuccessOutput (TextBlob text) filename metadata), s1)"
    by (auto simp: OCR_process_def Let_def
        split: list.splits if_splits prod.splits sum.splits option.splits)
  from ocr_try_text [OF this assms(2)] show ?thesis .
qed

lemma pageEntry_failed:
  "pageEntry p (Inl error) =
     ''--- Page '' @ string_of_int p @ '' ---'' @ [CHR 0x0A]
       @ ''[OCR Error: '' @ error_message error @ '']''"
  by (simp add: pageEntry_def)

text \<open>
  Claim C7, at a job on a two-page document whose first page cannot be recognised (page 2
  reads \<open>two\<close>). The failure of page 1 does not abort the job, and with either output
  format the job returns a success outcome counting both pages. With the text format the
  outcome holds the partial results: the marker \<open>[OCR Error: render failed]\<close> for page 1
  and the text of page 2. With the searchable-pdf format the outcome is the re-saved
  original document under the name \<open>scan_searchable.pdf\<close>: it holds neither the marker of
  page 1 nor the text of page 2, although \<open>createSearchablePDF\<close> is documented as creating
  a searchable PDF with the OCR text layer and is handed the results.
\<close>

theorem OCR_process_searchable_pdf_drops_results:
  "fst (OCR_process (sample_ocr_env None False) [sample_file]
          (sample_ocr_options [] SearchablePdf) fresh_ocr_state) =
     Inr (SuccessOutput (PdfBlob [37, 80, 68, 70]) ''scan_searchable.pdf''
            \<lparr>ocr_pageCount = 2, ocr_meta_languages = [''eng''],
             ocr_meta_outputFormat = SearchablePdf\<rparr>)
   \<and> fst (OCR_process (sample_ocr_env None False) [sample_file]
            (sample_ocr_options [] TextFormat) fresh_ocr_state) =
     Inr (SuccessOutput
            (TextBlob (''--- Page 1 ---'' @ [CHR 0x0A] @ ''[OCR Error: render failed]''
                       @ [CHR 0x0A, CHR 0x0A] @ ''--- Page 2 ---'' @ [CHR 0x0A] @ ''two''))
            ''scan_ocr.txt''
            \<lparr>ocr_pageCount = 2, ocr_meta_languages = [''eng''],
             ocr_meta_outputFormat = TextFormat\<rparr>)
   \<and> recognizePage_result (sample_ocr_env None False) 1 = Inl (Error ''render failed'')
   \<and> recognizePage_result (sample_ocr_env None False) 2 = Inr ''two''"
  by (simp add: ocr_run_defs string_of_int_def string_of_nat.simps digit_char_def)

section \<open>Progress\<close>

lemma log_within_update:
  assumes "log_within bound s" and "bound \<le> percent" and "0 \<le> percent" and "percent \<le> 100"
  shows "log_within percent (updateProgress percent s)"
  using assms by (auto simp: log_within_def updateProgress_def sorted_append)

lemma log_within_mono: "log_within bound s \<Longrightarrow> bound \<le> bound' \<Longrightarrow> log_within bound' s"
  by (auto simp: log_within_def)

lemma log_within_checkCancelled:
  "checkCancelled c s = (cancelled, s1) \<Longrightarrow> log_within bound s1 = log_within bound s"
  by (auto simp: checkCancelled_def log_within_def)

lemma log_within_terminateTesseract:
  "terminateTesseract env s = (e, s1) \<Longrightarrow> log_within bound s1 = log_within bound s"
  by (auto simp: log_within_def terminateTesseract_def Let_def split: option.splits)

lemma log_within_reset: "log_within 0 (reset s)"
  by (simp add: log_within_def reset_def)

lemma ocr_loop_log:
  assumes "log_within bound s" and "bound \<le> 25 + real i * ppp" and "0 \<le> ppp"
    and "(real i + real (length pages)) * ppp \<le> 70"
  shows "log_within 95 (snd (ocr_loop env ppp i pages acc s))"
  using assms
proof (induction pages arbitrary: i acc s bound)
  case Nil
  then have "bound \<le> 95" by simp
  with Nil.prems(1) show ?case by (simp add: log_within_mono)
next
  case (Cons pageNum rest)
  obtain cancelled s1 where c: "checkCancelled (ocr_cancelled_at env) s = (cancelled, s1)"
    by (cases "checkCancelled (ocr_cancelled_at env) s")
  have s1: "log_within bound s1"
    using log_within_checkCancelled [OF c] Cons.prems(1) by simp
  have step: "real i * ppp \<le> (real i + real (length (pageNum # rest))) * ppp"
    using Cons.prems(3) by (simp add: mult_right_mono)
  with Cons.prems(4) have le70: "real i * ppp \<le> 70" by linarith
  have ge0: "0 \<le> real i * ppp" using Cons.prems(3) by simp
  show ?case
  proof (cases cancelled)
    case True
    obtain e s2 where t: "terminateTesseract env s1 = (e, s2)"
      by (cases "terminateTesseract env s1")
    have "bound \<le> 95" using Cons.prems(2) le70 by simp
    with s1 have "log_within 95 s2"
      by (simp add: log_within_terminateTesseract [OF t] log_within_mono)
    with True c t show ?thesis by (cases e) simp_all
  next
    case False
    define p where "p = 25 + real i * ppp"
    define s2 where "s2 = updateProgress p s1"
    have s2: "log_within p s2"
      unfolding s2_def using s1 Cons.prems(2) le70 ge0
      by (intro log_within_update) (simp_all add: p_def)
    have next_bound: "p \<le> 25 + real (i + 1) * ppp"
      using Cons.prems(3) by (simp add: p_def distrib_right)
    have room: "(real (i + 1) + real (length rest)) * ppp \<le> 70"
      using Cons.prems(4) by (simp add: algebra_simps)
    have "log_within 95 (snd (ocr_loop env ppp (i + 1) rest
            (acc @ [pageEntry pageNum (ocrPage env pageNum s2)]) s2))"
      by (rule Cons.IH [OF s2 next_bound Cons.prems(3) room])
    with False c show ?thesis by (simp add: Let_def s2_def p_def)
  qed
qed

lemma ocr_finish_log:
  assumes "log_within 95 s"
  shows "log_within 100 (snd (ocr_finish env file opts pages results s))"
proof -
  obtain e s1 where t: "terminateTesseract env s = (e, s1)"
    by (cases "terminateTesseract env s")
  have l1: "log_within 95 s1" using log_within_terminateTesseract [OF t] assms by simp
  have a: "log_within 95 (updateProgress 95 s1)"
    using log_within_update [OF l1, of 95] by simp
  have b: "log_within 100 (updateProgress 100 (updateProgress 95 s1))"
    using log_within_update [OF a, of 100] by simp
  from a have c: "log_within 100 (updateProgress 95 s1)"
    by (rule log_within_mono) simp
  from l1 have d: "log_within 100 s1"
    by (rule log_within_mono) simp
  show ?thesis
    using t b c d by (cases e) (simp_all add: ocr_finish_def Let_def split: sum.splits)
qed

lemma ocr_try_log:
  assumes "log_within 0 s"
  shows "log_within 100 (snd (ocr_try env file opts s))"
proof -
  define s1 where "s1 = updateProgress 5 s"
  have l1: "log_within 5 s1"
    unfolding s1_def using log_within_update [OF assms, of 5] by simp
  obtain cancelled s2 where c: "checkCancelled (ocr_cancelled_at env) s1 = (cancelled, s2)"
    by (cases "checkCancelled (ocr_cancelled_at env) s1")
  have l2: "log_within 5 s2" using log_within_checkCancelled [OF c] l1 by simp
  define s3 where "s3 = updateProgress 10 s2"
  have l3: "log_within 10 s3"
    unfolding s3_def using log_within_update [OF l2, of 10] by simp
  define s4 where "s4 = s3\<lparr>tesseractWorker := Some (workers_created s3),
                             workers_created := workers_created s3 + 1\<rparr>"
  define s5 where "s5 = updateProgress 20 s4"
  have "log_within 10 s4" using l3 by (simp add: s4_def log_within_def)
  then have l5: "log_within 20 s5"
    unfolding s5_def using log_within_update [of 10 s4 20] by simp
  define s6 where "s6 = updateProgress 25 s5"
  have l6: "log_within 25 s6"
    unfolding s6_def using log_within_update [OF l5, of 25] by simp
  show ?thesis
  proof (cases "loadPdfjs_result env")
    case (Some error)
    with log_within_mono [OF l1, of 100] show ?thesis by (simp add: ocr_try_def s1_def)
  next
    case None
    show ?thesis
    proof (cases cancelled)
      case True
      with None c log_within_mono [OF l2, of 100] show ?thesis
        by (simp add: ocr_try_def s1_def)
    next
      case False
      show ?thesis
      proof (cases "createWorker_result env")
        case (Some error)
        with None c False log_within_mono [OF l3, of 100] show ?thesis
          by (simp add: ocr_try_def s1_def s3_def initializeTesseract_def)
      next
        case noError: None
        have init: "initializeTesseract env s3 = (None, s4)"
          using noError by (simp add: initializeTesseract_def s4_def)
        show ?thesis
        proof (cases "getDocument_result env")
          case (Inl error)
          with None c False init log_within_mono [OF l5, of 100] show ?thesis
            by (simp add: ocr_try_def s1_def s3_def s5_def)
        next
          case (Inr totalPages)
          define pages where "pages = selectPagesToOCR opts totalPages"
          show ?thesis
          proof (cases "length pages = 0")
            case True
            obtain e t5 where t: "terminateTesseract env s5 = (e, t5)"
              by (cases "terminateTesseract env s5")
            have "log_within 100 t5"
              using log_within_mono [OF l5, of 100] by (simp add: log_within_terminateTesseract [OF t])
            with None c False init Inr True t show ?thesis
              by (cases e) (simp_all add: ocr_try_def s1_def s3_def s5_def pages_def Let_def)
          next
            case nonEmpty: False
            then have n: "0 < real (length pages)" by simp
            obtain lr s7 where loop:
              "ocr_loop env (70 / real (length pages)) 0 pages [] s6 = (lr, s7)"
              by (cases "ocr_loop env (70 / real (length pages)) 0 pages [] s6")
            have "log_within 95 (snd (ocr_loop env (70 / real (length pages)) 0 pages [] s6))"
              using n by (intro ocr_loop_log [OF l6]) simp_all
            with loop have l7: "log_within 95 s7" by simp
            have "log_within 100 (snd (case lr of
                      Threw error \<Rightarrow> (Inl error, s7)
                    | Returned out \<Rightarrow> (Inr out, s7)
                    | Completed textResults \<Rightarrow> ocr_finish env file opts pages textResults s7))"
              using log_within_mono [OF l7, of 100] ocr_finish_log [OF l7]
              by (simp split: loop_end.splits)
            with None c False init Inr nonEmpty loop show ?thesis
              by (simp add: ocr_try_def s1_def s3_def s5_def s6_def pages_def Let_def
                  split: loop_end.splits)
          qed
        qed
      qed
    qed
  qed
qed

lemma OCR_process_log: "log_within 100 (snd (OCR_process env files opts s))"
proof -
  have start: "log_within 0 (reset s)" by (rule log_within_reset)
  then have early: "log_within 100 (reset s)" by (rule log_within_mono) simp
  have body: "log_within 100 (snd (case ocr_try env fl opts (reset s) of
                 (Inr out, s') \<Rightarrow> (Inr out, s')
               | (Inl error, s') \<Rightarrow>
                   (case terminateTesseract env s' of
                      (Some error', s'') \<Rightarrow> (Inl error', s'')
                    | (None, s'') \<Rightarrow>
                        (Inr (ErrorOutput PROCESSING_FAILED ''Failed to perform OCR on PDF.''
                                (Some (error_message error))), s''))))" for fl
  proof -
    obtain b s1 where body: "ocr_try env fl opts (reset s) = (b, s1)"
      by (cases "ocr_try env fl opts (reset s)")
    obtain e s2 where t: "terminateTesseract env s1 = (e, s2)"
      by (cases "terminateTesseract env s1")
    have l1: "log_within 100 s1" using ocr_try_log [OF start, of env fl opts] body by simp
    then have "log_within 100 s2" by (simp add: log_within_terminateTesseract [OF t])
    with l1 body t show ?thesis by (cases b; cases e) simp_all
  qed
  show ?thesis
    unfolding OCR_process_def Let_def using early body
    by (simp split: list.splits)
qed

lemma split_loop_log:
  assumes "log_within bound s" and "bound \<le> 15 + real i * ppr" and "0 \<le> ppr"
    and "(real i + real (length ranges)) * ppr \<le> 75"
  shows "log_within 95 (snd (split_loop env name ppr nranges i ranges blobs names s))"
  using assms
proof (induction ranges arbitrary: i blobs names s bound)
  case Nil
  then have "bound \<le> 95" by simp
  with Nil.prems(1) show ?case by (simp add: log_within_mono)
next
  case (Cons rng rest)
  obtain cancelled s1 where c: "checkCancelled (split_cancelled_at env) s = (cancelled, s1)"
    by (cases "checkCancelled (split_cancelled_at env) s")
  have s1: "log_within bound s1"
    using log_within_checkCancelled [OF c] Cons.prems(1) by simp
  have "real i * ppr \<le> (real i + real (length (rng # rest))) * ppr"
    using Cons.prems(3) by (simp add: mult_right_mono)
  with Cons.prems(4) have le75: "real i * ppr \<le> 75" by linarith
  have ge0: "0 \<le> real i * ppr" using Cons.prems(3) by simp
  show ?case
  proof (cases cancelled)
    case True
    have "bound \<le> 95" using Cons.prems(2) le75 by simp
    with s1 have "log_within 95 s1" by (simp add: log_within_mono)
    with True c show ?thesis by simp
  next
    case False
    define p where "p = 15 + real i * ppr"
    define s2 where "s2 = updateProgress p s1"
    have s2: "log_within p s2"
      unfolding s2_def using s1 Cons.prems(2) le75 ge0
      by (intro log_within_update) (simp_all add: p_def)
    show ?thesis
    proof (cases "extract_result env i")
      case (Some error)
      have "p \<le> 95" using le75 by (simp add: p_def)
      with s2 have "log_within 95 s2" by (simp add: log_within_mono)
      with False c Some show ?thesis by (simp add: Let_def s2_def p_def)
    next
      case None
      have next_bound: "p \<le> 15 + real (i + 1) * ppr"
        using Cons.prems(3) by (simp add: p_def distrib_right)
      have room: "(real (i + 1) + real (length rest)) * ppr \<le> 75"
        using Cons.prems(4) by (simp add: algebra_simps)
      have "log_within 95 (snd (split_loop env name ppr nranges (i + 1) rest
              (blobs @ [map (\<lambda>pageNum. pageNum - 1) [range_start rng..range_end rng]])
              (names @ [generateSplitFilename name rng (i + 1) nranges]) s2))"
        by (rule Cons.IH [OF s2 next_bound Cons.prems(3) room])
      with False c None show ?thesis by (simp add: Let_def s2_def p_def)
    qed
  qed
qed

lemma split_finish_log:
  assumes "log_within 95 s"
  shows "log_within 100 (snd (split_finish opts totalPages blobs names s))"
proof -
  have a: "log_within 95 (updateProgress 95 s)"
    using log_within_update [OF assms, of 95] by simp
  have "log_within 100 (updateProgress 100 (updateProgress 95 s))"
    using log_within_update [OF a, of 100] by simp
  then show ?thesis by (simp add: split_finish_def Let_def)
qed

lemma split_extract_log:
  assumes "log_within 10 s" and "length (split_ranges opts) \<noteq> 0"
  shows "log_within 100 (snd (split_extract env file opts totalPages s))"
proof -
  define s1 where "s1 = updateProgress 15 s"
  have l1: "log_within 15 s1"
    unfolding s1_def using log_within_update [OF assms(1), of 15] by simp
  obtain cancelled s2 where c: "checkCancelled (split_cancelled_at env) s1 = (cancelled, s2)"
    by (cases "checkCancelled (split_cancelled_at env) s1")
  have l2: "log_within 15 s2" using log_within_checkCancelled [OF c] l1 by simp
  define n where "n = length (split_ranges opts)"
  have n: "0 < real n" using assms(2) by (simp add: n_def)
  obtain le s3 where loop:
    "split_loop env (file_name file) (75 / real n) n 0 (split_ranges opts) [] [] s2 = (le, s3)"
    by (cases "split_loop env (file_name file) (75 / real n) n 0 (split_ranges opts) [] [] s2")
  have "log_within 95 (snd (split_loop env (file_name file) (75 / real n) n 0
                              (split_ranges opts) [] [] s2))"
    using n by (intro split_loop_log [OF l2]) (simp_all add: n_def)
  with loop have l3: "log_within 95 s3" by simp
  show ?thesis
  proof (cases "validatePageRanges (split_ranges opts) (int totalPages)")
    case (Some validationError)
    with log_within_mono [OF l1, of 100] show ?thesis
      by (simp add: split_extract_def s1_def)
  next
    case None
    show ?thesis
    proof (cases cancelled)
      case True
      with None c log_within_mono [OF l2, of 100] show ?thesis
        by (simp add: split_extract_def s1_def)
    next
      case False
      show ?thesis
      proof (cases le)
        case (Threw error)
        with None c False loop log_within_mono [OF l3, of 100] show ?thesis
          by (simp add: split_extract_def s1_def n_def Let_def)
      next
        case (Returned out)
        with None c False loop log_within_mono [OF l3, of 100] show ?thesis
          by (simp add: split_extract_def s1_def n_def Let_def)
      next
        case (Completed acc)
        obtain blobs names where acc: "acc = (blobs, names)" by (cases acc)
        with Completed None c False loop
          split_finish_log [OF l3, of opts totalPages blobs names] show ?thesis
          by (simp add: split_extract_def s1_def n_def Let_def split_def)
      qed
    qed
  qed
qed

lemma split_try_log:
  assumes "log_within 0 s" and "length (split_ranges opts) \<noteq> 0"
  shows "log_within 100 (snd (split_try env file opts s))"
proof -
  define s1 where "s1 = updateProgress 5 s"
  have l1: "log_within 5 s1"
    unfolding s1_def using log_within_update [OF assms(1), of 5] by simp
  obtain cancelled s2 where c: "checkCancelled (split_cancelled_at env) s1 = (cancelled, s2)"
    by (cases "checkCancelled (split_cancelled_at env) s1")
  have l2: "log_within 5 s2" using log_within_checkCancelled [OF c] l1 by simp
  define s3 where "s3 = updateProgress 10 s2"
  have l3: "log_within 10 s3"
    unfolding s3_def using log_within_update [OF l2, of 10] by simp
  note ends = log_within_mono [OF l1, of 100] log_within_mono [OF l2, of 100]
    log_within_mono [OF l3, of 100]
    split_extract_log [OF l3 assms(2), of env "file"]
  show ?thesis
    using c ends
    by (simp add: split_try_def Let_def s1_def s3_def
        split: option.splits sum.splits thrown.splits)
qed

lemma Split_process_log: "log_within 100 (snd (Split_process env files opts s))"
proof -
  have start: "log_within 0 (reset s)" by (rule log_within_reset)
  then have early: "log_within 100 (reset s)" by (rule log_within_mono) simp
  have body: "log_within 100 (snd (case split_try env fl opts (reset s) of
                 (Inr out, s') \<Rightarrow> (out, s')
               | (Inl error, s') \<Rightarrow>
                   (ErrorOutput PROCESSING_FAILED ''Failed to split PDF file.''
                      (Some (error_message error)), s')))"
    if "length (split_ranges opts) \<noteq> 0" for fl
    using split_try_log [OF start that, of env fl]
    by (cases "split_try env fl opts (reset s)") (simp split: sum.splits)
  show ?thesis
    unfolding Split_process_def Let_def using early body
    by (simp split: list.splits)
qed

text \<open>
  Claim C8. In every run of the OCR job and of the split job, whatever the files, the
  options (page selection, range list), the collaborators' results and the cancellation
  checks, the percentages that the progress callback receives during the run are in
  non-decreasing order and none exceeds 100. They are the percentages that the job
  passes to \<open>updateProgress\<close>: the clamping never changes one.
\<close>

theorem progress_non_decreasing:
  "sorted (progress_emitted (snd (OCR_process ocrEnv files ocrOptions ocrState)))
   \<and> (\<forall>v\<in>set (progress_emitted (snd (OCR_process ocrEnv files ocrOptions ocrState))). v \<le> 100)
   \<and> progress_emitted (snd (OCR_process ocrEnv files ocrOptions ocrState)) =
       progress_log (snd (OCR_process ocrEnv files ocrOptions ocrState))
   \<and> sorted (progress_emitted (snd (Split_process splitEnv files' splitOptions state)))
   \<and> (\<forall>v\<in>set (progress_emitted (snd (Split_process splitEnv files' splitOptions state))).
         v \<le> 100)
   \<and> progress_emitted (snd (Split_process splitEnv files' splitOptions state)) =
       progress_log (snd (Split_process splitEnv files' splitOptions state))"
proof -
  have emitted: "progress_emitted st = progress_log st" if "log_within 100 st"
    for st :: "'a run_state_scheme"
  proof -
    have "min 100 (max 0 v) = v" if "v \<in> set (progress_log st)" for v
      using that \<open>log_within 100 st\<close> by (auto simp: log_within_def)
    then show ?thesis by (simp add: progress_emitted_def map_idI)
  qed
  show ?thesis
    using OCR_process_log [of ocrEnv files ocrOptions ocrState]
      Split_process_log [of splitEnv files' splitOptions state]
    by (simp add: emitted) (simp add: log_within_def)
qed

lemmas split_run_defs =
  Split_process_def split_try_def split_extract_def split_finish_def validatePageRanges_def
  checkRange_def generateSplitFilename_def getFileNameWithoutExtension_def
  checkCancelled_def updateProgress_def reset_def cancelledOutput_def
  sample_file_def sample_split_options_def sample_split_env_def fresh_run_state_def Let_def

theorem progress_non_decreasing_witness:
  "progress_emitted (snd (OCR_process (sample_ocr_env None False) [sample_file]
                        (sample_ocr_options [] TextFormat) fresh_ocr_state)) =
     [5, 10, 20, 25, 25, 60, 95, 100]
   \<and> progress_emitted (snd (Split_process (sample_split_env None) [sample_file]
                          sample_split_options fresh_run_state)) =
     [5, 10, 15, 15, 105 / 2, 95, 100]"
proof -
  have ocr: "progress_log (snd (OCR_process (sample_ocr_env None False) [sample_file]
                        (sample_ocr_options [] TextFormat) fresh_ocr_state)) =
     [5, 10, 20, 25, 25, 60, 95, 100]"
    by (simp add: ocr_run_defs)
  have split: "progress_log (snd (Split_process (sample_split_env None) [sample_file]
                          sample_split_options fresh_run_state)) =
     [5, 10, 15, 15, 105 / 2, 95, 100]"
    by (simp add: split_run_defs)
  from progress_non_decreasing [of "sample_ocr_env None False" "[sample_file]"
      "sample_ocr_options [] TextFormat" fresh_ocr_state "sample_split_env None" "[sample_file]"
      sample_split_options fresh_run_state]
  have "progress_emitted (snd (OCR_process (sample_ocr_env None False) [sample_file]
                        (sample_ocr_options [] TextFormat) fresh_ocr_state)) =
        progress_log (snd (OCR_process (sample_ocr_env None False) [sample_file]
                        (sample_ocr_options [] TextFormat) fresh_ocr_state))"
    and "progress_emitted (snd (Split_process (sample_split_env None) [sample_file]
                          sample_split_options fresh_run_state)) =
        progress_log (snd (Split_process (sample_split_env None) [sample_file]
                          sample_split_options fresh_run_state))"
    by simp_all
  then show ?thesis unfolding ocr split by simp
qed

section \<open>Page selection of the text colour job\<close>

lemma textcolor_loop_pages:
  assumes "textcolor_loop env textOptions count i pages newPdf s = (Completed doc, s')"
  shows "map source_page doc = map source_page newPdf @ pages"
  using assms
proof (induction pages arbitrary: i newPdf s)
  case Nil
  then show ?case by simp
next
  case (Cons pageNum rest)
  show ?case
  proof (cases "tc_cancelled_at env (cancel_checks s)")
    case True
    with Cons.prems show ?thesis by (simp add: checkCancelled_def)
  next
    case False
    with Cons.prems Cons.IH show ?thesis
      by (simp add: checkCancelled_def Let_def split: sum.splits option.splits)
  qed
qed

lemma textcolor_loop_returned:
  "textcolor_loop env textOptions count i pages newPdf s = (Returned out, s') \<Longrightarrow>
     out = cancelledOutput"
proof (induction pages arbitrary: i newPdf s)
  case Nil
  then show ?case by simp
next
  case (Cons pageNum rest)
  show ?case
  proof (cases "tc_cancelled_at env (cancel_checks s)")
    case True
    with Cons.prems show ?thesis by (simp add: checkCancelled_def)
  next
    case False
    with Cons.prems Cons.IH show ?thesis
      by (simp add: checkCancelled_def Let_def split: sum.splits option.splits)
  qed
qed

lemma textcolor_try_pages:
  assumes "textcolor_try env file textOptions s = (Inr (SuccessOutput doc filename pageCount), s')"
    and "tc_pages textOptions = PageList pages"
  shows "(\<exists>newPdf. doc = savedDocument newPdf \<and> map source_page newPdf = pages)
       \<and> pageCount = length pages"
proof (cases "loadLibraries_result env")
  case (Some error)
  with assms(1) show ?thesis by (simp add: textcolor_try_def)
next
  case None
  show ?thesis
  proof (cases "openDocument_result env")
    case (Inl error)
    with assms(1) None show ?thesis by (simp add: textcolor_try_def)
  next
    case (Inr totalPages)
    define s3 where "s3 = updateProgress 15 (updateProgress 10 (updateProgress 5 s))"
    have sel: "textcolor_pagesToProcess textOptions totalPages = pages"
      using assms(2) by (simp add: textcolor_pagesToProcess_def)
    obtain le s4 where loop:
      "textcolor_loop env textOptions (length pages) 0 pages [] s3 = (le, s4)"
      by (cases "textcolor_loop env textOptions (length pages) 0 pages [] s3")
    show ?thesis
    proof (cases le)
      case (Threw error)
      with assms(1) None Inr sel loop show ?thesis
        by (simp add: textcolor_try_def Let_def s3_def)
    next
      case (Returned out)
      with loop have "out = cancelledOutput" by (auto dest: textcolor_loop_returned)
      with Returned assms(1) None Inr sel loop show ?thesis
        by (simp add: textcolor_try_def Let_def s3_def cancelledOutput_def)
    next
      case (Completed newPdf)
      with assms(1) None Inr sel loop
      have "doc = savedDocument newPdf \<and> pageCount = length pages"
        by (simp add: textcolor_try_def Let_def s3_def split: option.splits)
      moreover have "map source_page newPdf = pages"
        using Completed loop
          textcolor_loop_pages [of env textOptions "length pages" 0 pages "[]" s3 newPdf s4]
        by simp
      ultimately show ?thesis by blast
    qed
  qed
qed

lemmas textcolor_run_defs =
  TextColor_process_def textcolor_try_def textcolor_pagesToProcess_def savedDocument_def
  checkCancelled_def updateProgress_def reset_def cancelledOutput_def
  sample_file_def sample_textcolor_options_def sample_textcolor_env_def fresh_run_state_def
  toUint8Clamp_def shouldChange_def Let_def

text \<open>
  Claim C10, as stated, at a concrete input: the explicit page list \<open>[]\<close>. The loop adds no
  page, the job succeeds and reports \<open>pageCount\<close> 0, but the saved document is not empty:
  it holds the one default page that saving a document without pages adds, a page that
  comes from no entry of the list.
\<close>

theorem TextColor_process_empty_list_counterexample:
  "TextColor_process sample_textcolor_env [sample_file]
     (sample_textcolor_options (PageList [])) fresh_run_state =
     (SuccessOutput [DefaultPage] ''scan_textcolor.pdf'' 0,
      \<lparr>progress_log = [5, 10, 15, 95, 100], cancel_checks = 0\<rparr>)
   \<and> length [DefaultPage] \<noteq> length ([] :: int list)"
  by (simp add: textcolor_run_defs)

text \<open>
  Claim C10, amended. When the text-colour job is given a non-empty explicit page list
  and returns a success outcome, the pages of the output document are the pages that the
  job added, rendered, in order, from exactly the entries of that list: one output page
  per entry and no other page, so a page of the source that is not selected is absent from
  the output. The reported \<open>pageCount\<close> is the length of the list.
\<close>

theorem TextColor_process_output_pages:
  assumes "TextColor_process env files textOptions s = (SuccessOutput doc filename pageCount, s')"
    and "tc_pages textOptions = PageList pages"
    and "pages \<noteq> []"
  shows "map page_source doc = map Some pages \<and> length doc = length pages
       \<and> pageCount = length pages"
proof -
  from assms(1) obtain f s1 where
    "textcolor_try env f textOptions (reset s) = (Inr (SuccessOutput doc filename pageCount), s1)"
    by (auto simp: TextColor_process_def Let_def split: list.splits prod.splits sum.splits)
  from textcolor_try_pages [OF this assms(2)] obtain newPdf where
    doc: "doc = savedDocument newPdf" and src: "map source_page newPdf = pages"
    and count: "pageCount = length pages" by blast
  from src assms(3) have "newPdf \<noteq> []" by auto
  with doc have added: "doc = map AddedPage newPdf" by (simp add: savedDocument_def)
  have "map page_source doc = map Some (map source_page newPdf)"
    by (simp add: added comp_def)
  with src have sources: "map page_source doc = map Some pages" by simp
  then have "length doc = length pages" by (metis length_map)
  with sources count show ?thesis by simp
qed

theorem TextColor_process_output_pages_witness:
  "TextColor_process sample_textcolor_env [sample_file]
     (sample_textcolor_options (PageList [3, 1])) fresh_run_state =
     (SuccessOutput
        [AddedPage \<lparr>source_page = 3, page_width = 612, page_height = 792,
          page_image = [255, 0, 0, 255, 200, 200, 200, 128]\<rparr>,
         AddedPage \<lparr>source_page = 1, page_width = 612, page_height = 792,
          page_image = [255, 0, 0, 255, 200, 200, 200, 128]\<rparr>]
        ''scan_textcolor.pdf'' 2,
      \<lparr>progress_log = [5, 10, 15, 15, 105 / 2, 95, 100], cancel_checks = 2\<rparr>)
   \<and> tc_pages (sample_textcolor_options (PageList [3, 1])) = PageList [3, 1]"
proof -
  have run: "TextColor_process sample_textcolor_env [sample_file]
     (sample_textcolor_options (PageList [3, 1])) fresh_run_state =
     (SuccessOutput
        [AddedPage \<lparr>source_page = 3, page_width = 612, page_height = 792,
          page_image = [255, 0, 0, 255, 200, 200, 200, 128]\<rparr>,
         AddedPage \<lparr>source_page = 1, page_width = 612, page_height = 792,
          page_image = [255, 0, 0, 255, 200, 200, 200, 128]\<rparr>]
        ''scan_textcolor.pdf'' 2,
      \<lparr>progress_log = [5, 10, 15, 15, 105 / 2, 95, 100], cancel_checks = 2\<rparr>)"
    by (simp add: textcolor_run_defs)
  have sel: "tc_pages (sample_textcolor_options (PageList [3, 1])) = PageList [3, 1]"
    by (simp add: sample_textcolor_options_def)
  have nonempty: "[3, 1] \<noteq> ([] :: int list)" by simp
  from TextColor_process_output_pages [OF run sel nonempty] run sel show ?thesis by simp
qed

lemma selectPagesToOCR_listed:
  "ocr_pages ocrOptions \<noteq> [] \<Longrightarrow>
     selectPagesToOCR ocrOptions totalPages =
       filter (\<lambda>p. 1 \<le> p \<and> p \<le> int totalPages) (ocr_pages ocrOptions)"
  by (simp add: selectPagesToOCR_def)

lemma background_tinted_listed:
  "set (background_tinted (PageList numbers) totalPages) =
     {i. i < totalPages \<and> int i + 1 \<in> set numbers}"
proof -
  have "int i \<in> (\<lambda>p. p - 1) ` set numbers \<longleftrightarrow> int i + 1 \<in> set numbers" for i
  proof
    assume "int i \<in> (\<lambda>p. p - 1) ` set numbers"
    then obtain p where "p \<in> set numbers" and "int i = p - 1" by auto
    then show "int i + 1 \<in> set numbers" by simp
  next
    assume "int i + 1 \<in> set numbers"
    then have "(\<lambda>p. p - 1) (int i + 1) \<in> (\<lambda>p. p - 1) ` set numbers" by (rule imageI)
    then show "int i \<in> (\<lambda>p. p - 1) ` set numbers" by simp
  qed
  then show ?thesis
    by (auto simp: background_tinted_def background_pagesToProcess_def)
qed

text \<open>
  Claim C1 at a concrete input. The OCR job and the background job drop the page number
  5 from the list \<open>[1, 5]\<close> on a three-page document and work on page 1. The text-colour
  job takes the list as it is: it processes page 1, then asks the rasteriser for page 5,
  which does not exist, and the whole job ends with \<open>PROCESSING_FAILED\<close> and no output.
\<close>

theorem TextColor_process_out_of_range_page:
  "TextColor_process sample_textcolor_env [sample_file]
     (sample_textcolor_options (PageList [1, 5])) fresh_run_state =
     (ErrorOutput PROCESSING_FAILED ''Failed to change text color.''
        (Some ''Invalid page request.''),
      \<lparr>progress_log = [5, 10, 15, 15, 105 / 2], cancel_checks = 2\<rparr>)
   \<and> selectPagesToOCR (sample_ocr_options [1, 5] TextFormat) 3 = [1]
   \<and> background_tinted (PageList [1, 5]) 3 = [0]"
  by (simp add: textcolor_run_defs selectPagesToOCR_def sample_ocr_options_def
      background_tinted_def background_pagesToProcess_def upt_rec)

end
